theory Spec2Isabelle
  imports Main "HOL-Library.Word" "HOL-Library.Log_Nat"
begin

section \<open>Errors\<close>

text \<open>
  The two sentinel errors of package aph, the range error that
  \<^verbatim>\<open>strconv.ParseFloat\<close> reports (a \<^verbatim>\<open>*strconv.NumError\<close> wrapping
  \<^verbatim>\<open>strconv.ErrRange\<close>), and the errors of the external argon2id package, which aph
  hands on unchanged and which are opaque here.
\<close>

datatype error =
    ErrorMalformedStamp
  | ErrorSplitAtomic
  | ErrRange
  | Argon2idError string

section \<open>The regular expressions\<close>

text \<open>
  The constructs that occur in the two patterns of \<^verbatim>\<open>aph.go\<close>:
  \<^verbatim>\<open>\d\<close>, a literal character, concatenation, alternation, greedy \<^verbatim>\<open>+\<close> and greedy
  \<^verbatim>\<open>?\<close>. Go strings are byte sequences; the patterns are pure ASCII and no byte of a
  multi-byte UTF-8 sequence is an ASCII byte, so matching bytes is matching runes.
\<close>

datatype regex =
    Digit
  | Lit char
  | Cat regex regex
  | Alt regex regex
  | Plus regex
  | Opt regex

definition is_digit :: "char \<Rightarrow> bool" where
  "is_digit c = (c \<in> set ''0123456789'')"

text \<open>
  Go's \<^verbatim>\<open>regexp\<close> returns, among the matches that start leftmost, the one a
  backtracking search finds first. \<open>matches r s\<close> lists every way in which \<open>r\<close> matches a
  prefix of \<open>s\<close>, as pairs (matched text, rest), in the order in which a backtracking
  search tries them: the left alternative before the right one, one more iteration
  before stopping. The guard in the \<open>Plus\<close> case only cuts iterations that consume
  nothing.
\<close>

fun matches :: "regex \<Rightarrow> string \<Rightarrow> (string \<times> string) list" where
  "matches Digit s =
     (case s of [] \<Rightarrow> [] | c # cs \<Rightarrow> if is_digit c then [([c], cs)] else [])"
| "matches (Lit a) s =
     (case s of [] \<Rightarrow> [] | c # cs \<Rightarrow> if c = a then [([c], cs)] else [])"
| "matches (Cat a b) s =
     concat (map (\<lambda>(m1, r1). map (\<lambda>(m2, r2). (m1 @ m2, r2)) (matches b r1)) (matches a s))"
| "matches (Alt a b) s = matches a s @ matches b s"
| "matches (Opt a) s = matches a s @ [([], s)]"
| "matches (Plus a) s =
     concat (map (\<lambda>(m1, r1).
        (if length r1 < length s
         then map (\<lambda>(m2, r2). (m1 @ m2, r2)) (matches (Plus a) r1) else []) @ [(m1, r1)])
       (matches a s))"

text \<open>A compiled pattern of the shape \<^verbatim>\<open>(g1)(g2)\<close>: its two capture groups.\<close>

type_synonym regexp = "regex \<times> regex"

text \<open>The optional fraction \<^verbatim>\<open>(?:\.\d+)?\<close> and the first capture group \<^verbatim>\<open>\d+(?:\.\d+)?\<close>.\<close>

definition fraction :: regex where
  "fraction = Opt (Cat (Lit CHR ''.'') (Plus Digit))"

definition number :: regex where
  "number = Cat (Plus Digit) fraction"

definition parseTime :: regexp where
  "parseTime = (number, Alt (Cat (Lit CHR ''m'') (Lit CHR ''s'')) (Lit CHR ''s''))"

definition parseMemory :: regexp where
  "parseMemory = (number,
     Alt (Cat (Lit CHR ''K'') (Lit CHR ''B''))
      (Alt (Cat (Lit CHR ''M'') (Lit CHR ''B'')) (Cat (Lit CHR ''G'') (Lit CHR ''B''))))"

text \<open>
  The match that starts at the head of \<open>s\<close>, if there is one: the whole match and the
  two submatches, as \<^verbatim>\<open>FindStringSubmatch\<close> returns them.
\<close>

definition submatch_here :: "regexp \<Rightarrow> string \<Rightarrow> string list" where
  "submatch_here re s =
     (case concat (map (\<lambda>(m1, r1). map (\<lambda>(m2, r2). [m1 @ m2, m1, m2]) (matches (snd re) r1))
                    (matches (fst re) s)) of
        [] \<Rightarrow> []
      | d # _ \<Rightarrow> d)"

text \<open>
  \<^verbatim>\<open>FindStringSubmatch\<close>: the leftmost match; \<open>[]\<close> stands for the nil slice that Go
  returns when nothing matches.
\<close>

fun FindStringSubmatch :: "regexp \<Rightarrow> string \<Rightarrow> string list" where
  "FindStringSubmatch re [] = submatch_here re []"
| "FindStringSubmatch re (c # cs) =
     (case submatch_here re (c # cs) of
        [] \<Rightarrow> FindStringSubmatch re cs
      | d # ds \<Rightarrow> d # ds)"

section \<open>float64\<close>

text \<open>
  The float64 values that can arise from an unsigned decimal numeral and a product
  with a positive constant: the non-negative finite ones, as the rational they denote,
  and +Inf.
\<close>

datatype float64 = Finite rat | PosInf

text \<open>\<open>ilog2 q\<close> is the \<open>e\<close> with \<open>2^e \<le> q < 2^(e+1)\<close>, for \<open>q > 0\<close>.\<close>

definition ilog2 :: "rat \<Rightarrow> int" where
  "ilog2 q =
     (let (a, b) = quotient_of q; d = bitlen a - bitlen b
      in if power_int 2 d \<le> q then d else d - 1)"

definition round_half_even :: "rat \<Rightarrow> int" where
  "round_half_even x =
     (let f = \<lfloor>x\<rfloor>; d = x - of_int f
      in if d < 1 / 2 then f else if 1 / 2 < d then f + 1 else if even f then f else f + 1)"

text \<open>
  IEEE 754 binary64 rounding to nearest, ties to even, of a non-negative rational:
  53 significant bits, least exponent -1022 (below it the spacing stays \<open>2^-1074\<close>),
  overflow to +Inf from \<open>2^1024\<close> on.
\<close>

definition round64 :: "rat \<Rightarrow> float64" where
  "round64 q =
     (if q \<le> 0 then Finite 0
      else let ulp = power_int 2 (max (ilog2 q) (- 1022) - 52);
               r = of_int (round_half_even (q / ulp)) * ulp
           in if 2 ^ 1024 \<le> r then PosInf else Finite r)"

text \<open>The product of a float64 with a positive float64 constant, as \<^verbatim>\<open>t * 1000\<close>.\<close>

definition fmul :: "float64 \<Rightarrow> rat \<Rightarrow> float64" where
  "fmul x c = (case x of Finite q \<Rightarrow> round64 (q * c) | PosInf \<Rightarrow> PosInf)"

text \<open>\<^verbatim>\<open>math.Trunc\<close> on these values, none of which is negative.\<close>

definition Trunc :: "float64 \<Rightarrow> float64" where
  "Trunc x = (case x of Finite q \<Rightarrow> Finite (of_int \<lfloor>q\<rfloor>) | PosInf \<Rightarrow> PosInf)"

text \<open>
  The conversion \<^verbatim>\<open>int(f)\<close>, with Go's 64-bit \<^verbatim>\<open>int\<close>: the fraction is discarded
  (the values are not negative, so that is the floor); when the result does not fit,
  the language leaves the value to the implementation, which is the parameter
  \<open>impl\<close>.
\<close>

definition int_of_float64 :: "(float64 \<Rightarrow> int) \<Rightarrow> float64 \<Rightarrow> int" where
  "int_of_float64 impl x =
     (case x of
        Finite q \<Rightarrow> if \<lfloor>q\<rfloor> < 2 ^ 63 then \<lfloor>q\<rfloor> else impl x
      | PosInf \<Rightarrow> impl x)"

text \<open>What the amd64 compiler yields for a value out of range: the least int64.\<close>

definition amd64 :: "float64 \<Rightarrow> int" where
  "amd64 x = - (2 ^ 63)"

section \<open>strconv.ParseFloat on plain decimals\<close>

definition digit_val :: "char \<Rightarrow> int" where
  "digit_val c = of_char c - 48"

definition digits_val :: "string \<Rightarrow> int" where
  "digits_val s = foldl (\<lambda>a c. 10 * a + digit_val c) 0 s"

text \<open>
  The value of \<^verbatim>\<open>ddd\<close> or \<^verbatim>\<open>ddd.ddd\<close>, the only texts the first capture group of the
  two patterns can hold.
\<close>

definition decimal_value :: "string \<Rightarrow> rat" where
  "decimal_value s =
     (let ip = takeWhile (\<lambda>c. c \<noteq> CHR ''.'') s;
          fp = drop 1 (dropWhile (\<lambda>c. c \<noteq> CHR ''.'') s)
      in of_int (digits_val ip) + of_int (digits_val fp) / 10 ^ length fp)"

text \<open>
  \<^verbatim>\<open>strconv.ParseFloat(s, 64)\<close> for such a text: the nearest float64; a value that
  rounds beyond the largest float64 gives +Inf and the range error.
\<close>

definition ParseFloat :: "string \<Rightarrow> float64 \<times> error option" where
  "ParseFloat s =
     (case round64 (decimal_value s) of
        PosInf \<Rightarrow> (PosInf, Some ErrRange)
      | Finite q \<Rightarrow> (Finite q, None))"

section \<open>The stamp parsers\<close>

definition ParseTime :: "(float64 \<Rightarrow> int) \<Rightarrow> string \<Rightarrow> int \<times> error option" where
  "ParseTime impl stamp =
     (let details = FindStringSubmatch parseTime stamp in
      if details = [] \<or> length details \<noteq> 3 then (0, Some ErrorMalformedStamp)
      else case ParseFloat (details ! 1) of
        (t, Some err) \<Rightarrow> (0, Some err)
      | (t, None) \<Rightarrow>
          if details ! 2 = ''ms'' then
            (if Trunc t \<noteq> t then (0, Some ErrorSplitAtomic)
             else (int_of_float64 impl t, None))
          else if details ! 2 = ''s'' then (int_of_float64 impl (fmul t 1000), None)
          else (0, None))"

definition ParseMemory :: "(float64 \<Rightarrow> int) \<Rightarrow> string \<Rightarrow> int \<times> error option" where
  "ParseMemory impl stamp =
     (let details = FindStringSubmatch parseMemory stamp in
      if details = [] \<or> length details \<noteq> 3 then (0, Some ErrorMalformedStamp)
      else case ParseFloat (details ! 1) of
        (s, Some err) \<Rightarrow> (0, Some err)
      | (s, None) \<Rightarrow>
          if details ! 2 = ''KB'' then
            (if Trunc s \<noteq> s then (0, Some ErrorSplitAtomic)
             else (int_of_float64 impl s, None))
          else if details ! 2 = ''MB'' then (int_of_float64 impl (fmul s 1024), None)
          else if details ! 2 = ''GB'' then
            (int_of_float64 impl (fmul (fmul s 1024) 1024), None)
          else (0, None))"

section \<open>The hash orchestrator\<close>

type_synonym u8 = "8 word"
type_synonym u32 = "32 word"

text \<open>
  \<^verbatim>\<open>argon2id.Parameters\<close>, as far as \<^verbatim>\<open>aph.go\<close> reads and writes it. A byte slice and a
  string are both a list of bytes.
\<close>

record Parameters =
  Time :: u32
  Memory :: u32
  Threads :: u8
  Length :: u32
  Salt :: string

record ResultSet =
  Time :: int
  Threads :: int
  Memory :: int
  Length :: int
  Key :: string
  Hash :: string
  Characters :: int
  Duration :: int
  Salt :: string

text \<open>The zero value \<^verbatim>\<open>ResultSet{}\<close>.\<close>

definition ResultSet_zero :: ResultSet where
  "ResultSet_zero = \<lparr>Time = 0, Threads = 0, Memory = 0, Length = 0, Key = [], Hash = [],
     Characters = 0, Duration = 0, Salt = []\<rparr>"

text \<open>
  What one call finds outside the program: the randomness the argon2id package may
  draw on, and the two readings of the monotonic clock, in nanoseconds, behind
  \<^verbatim>\<open>time.Now()\<close> and \<^verbatim>\<open>time.Since(start)\<close>.
\<close>

record 'w run =
  entropy :: 'w
  clock_start :: int
  clock_stop :: int

text \<open>
  The two functions of the external argon2id package are parameters:
  \<open>newp\<close> is \<^verbatim>\<open>argon2id.NewParameters(time, memory, threads, length)\<close> and
  \<open>genpw\<close> is \<^verbatim>\<open>argon2id.GenerateFromPassword(password, params)\<close>; each returns its
  value and its error, as in Go.
\<close>

type_synonym 'w new_parameters =
  "'w \<Rightarrow> u32 \<Rightarrow> u32 \<Rightarrow> u8 \<Rightarrow> u32 \<Rightarrow> Parameters \<times> error option"

type_synonym 'w generate_from_password =
  "'w \<Rightarrow> string \<Rightarrow> Parameters \<Rightarrow> string \<times> error option"

definition generateHash ::
  "'w generate_from_password \<Rightarrow> 'w run \<Rightarrow> Parameters \<Rightarrow> string \<Rightarrow> ResultSet \<times> error option"
where
  "generateHash genpw run params password =
     (let (hash, err) = genpw (entropy run) password params;
          duration = clock_stop run - clock_start run
      in if err \<noteq> None then (ResultSet_zero, err)
         else (\<lparr>Time = uint (Parameters.Time params),
                Threads = uint (Parameters.Threads params),
                Memory = uint (Parameters.Memory params),
                Length = uint (Parameters.Length params),
                Key = password,
                Hash = hash,
                Characters = int (length hash),
                Duration = duration,
                Salt = Parameters.Salt params\<rparr>, None))"

text \<open>
  The conversions \<^verbatim>\<open>uint32(seconds)\<close> and \<^verbatim>\<open>uint8(threads)\<close> keep the low bits:
  \<open>word_of_int\<close>.
\<close>

definition GenerateHash ::
  "'w new_parameters \<Rightarrow> 'w generate_from_password \<Rightarrow> 'w run \<Rightarrow>
   int \<Rightarrow> int \<Rightarrow> int \<Rightarrow> int \<Rightarrow> string \<Rightarrow> ResultSet \<times> error option"
where
  "GenerateHash newp genpw run seconds threads memory len key =
     (let (params, err) = newp (entropy run) (word_of_int seconds) (word_of_int memory)
                             (word_of_int threads) (word_of_int len)
      in if err \<noteq> None then (ResultSet_zero, err)
         else generateHash genpw run params key)"

definition GenerateHashWithSalt ::
  "'w new_parameters \<Rightarrow> 'w generate_from_password \<Rightarrow> 'w run \<Rightarrow>
   int \<Rightarrow> int \<Rightarrow> int \<Rightarrow> int \<Rightarrow> string \<Rightarrow> string \<Rightarrow> ResultSet \<times> error option"
where
  "GenerateHashWithSalt newp genpw run seconds threads memory len key salt =
     (let (params0, err) = newp (entropy run) (word_of_int seconds) (word_of_int memory)
                              (word_of_int threads) (word_of_int len);
          params = params0\<lparr>Parameters.Salt := salt\<rparr>
      in if err \<noteq> None then (ResultSet_zero, err)
         else generateHash genpw run params key)"

section \<open>Vocabulary of the statements\<close>

text \<open>A non-empty run of decimal digits.\<close>

definition all_digits :: "string \<Rightarrow> bool" where
  "all_digits d = (d \<noteq> [] \<and> list_all is_digit d)"

text \<open>
  A number as the stamps write it: digits, or digits, a point and digits. The text
  is cut at the first point, as \<open>decimal_value\<close> cuts it.
\<close>

definition is_number :: "string \<Rightarrow> bool" where
  "is_number n =
     (let ip = takeWhile (\<lambda>c. c \<noteq> CHR ''.'') n; r = dropWhile (\<lambda>c. c \<noteq> CHR ''.'') n
      in all_digits ip \<and> (r = [] \<or> all_digits (tl r)))"

text \<open>
  What the lemmas on matching need to know of a second capture group \<open>g\<close> that
  stands for the unit names \<open>us\<close>: it matches nothing but these names, it matches
  each of them where the name stands, and no name starts with a digit or a point.
\<close>

definition unit_group :: "regex \<Rightarrow> string list \<Rightarrow> bool" where
  "unit_group g us \<longleftrightarrow>
     (\<forall>s m r. (m, r) \<in> set (matches g s) \<longrightarrow> s = m @ r \<and> m \<in> set us) \<and>
     (\<forall>u\<in>set us. \<forall>post. \<exists>rest. matches g (u @ post) = (u, post) # rest) \<and>
     (\<forall>u\<in>set us. u \<noteq> [] \<and> \<not> is_digit (hd u) \<and> hd u \<noteq> CHR ''.'')"

section \<open>What is asked of the argon2id package\<close>

text \<open>
  The contract of the constructor that the claims on the result's fields rest on:
  the parameters it returns without an error hold the four numbers it was given.
\<close>

definition keeps_arguments :: "'w new_parameters \<Rightarrow> bool" where
  "keeps_arguments newp \<longleftrightarrow>
     (\<forall>w t m p l params. newp w t m p l = (params, None) \<longrightarrow>
        Parameters.Time params = t \<and> Parameters.Memory params = m \<and>
        Parameters.Threads params = p \<and> Parameters.Length params = l)"

text \<open>
  The contract of the package that determinism rests on. The randomness the
  constructor draws reaches nothing but the salt it proposes.
\<close>

definition salt_only_randomness :: "'w new_parameters \<Rightarrow> bool" where
  "salt_only_randomness newp \<longleftrightarrow>
     (\<forall>w w' t m p l.
        snd (newp w t m p l) = snd (newp w' t m p l) \<and>
        (fst (newp w t m p l))\<lparr>Parameters.Salt := []\<rparr> =
        (fst (newp w' t m p l))\<lparr>Parameters.Salt := []\<rparr>)"

text \<open>With the salt \<open>salt\<close> in the parameters, the hashing draws no randomness.\<close>

definition deterministic_for_salt :: "'w generate_from_password \<Rightarrow> string \<Rightarrow> bool" where
  "deterministic_for_salt genpw salt \<longleftrightarrow>
     (\<forall>w w' pw ps. Parameters.Salt ps = salt \<longrightarrow> genpw w pw ps = genpw w' pw ps)"

section \<open>A stand-in for the argon2id package\<close>

text \<open>
  Modelled from the spec: the package \<^verbatim>\<open>github.com/JordanOcokoljic/argon2id\<close> is
  not part of the sources. The spec asks of it a parameter constructor that
  validates its arguments and fails on invalid input, and a hash operation that is
  deterministic when the salt is fixed. The two functions below are the simplest of
  that kind and serve only to run the orchestrator at concrete inputs: the
  constructor stores its four arguments, takes its salt from the randomness and
  rejects a time or a thread count of 0; the hash operation never fails and joins
  salt and password. Every general statement below is about arbitrary \<open>newp\<close> and
  \<open>genpw\<close>, not about these two.
\<close>

definition sample_NewParameters :: "string new_parameters" where
  "sample_NewParameters rnd t m p l =
     (if t = 0 \<or> p = 0
      then (\<lparr>Parameters.Time = 0, Memory = 0, Threads = 0, Length = 0, Salt = []\<rparr>,
            Some (Argon2idError ''invalid parameters''))
      else (\<lparr>Parameters.Time = t, Memory = m, Threads = p, Length = l, Salt = rnd\<rparr>, None))"

definition sample_GenerateFromPassword :: "string generate_from_password" where
  "sample_GenerateFromPassword rnd password params =
     (''$argon2id$'' @ Parameters.Salt params @ ''$'' @ password, None)"

text \<open>One run: the randomness and the two clock readings.\<close>

definition sample_run :: "string run" where
  "sample_run = \<lparr>entropy = ''0123456789abcdef'', clock_start = 1000, clock_stop = 51000\<rparr>"

text \<open>Another run: other randomness, other clock readings.\<close>

definition other_run :: "string run" where
  "other_run = \<lparr>entropy = ''fedcba9876543210'', clock_start = 7, clock_stop = 900000007\<rparr>"

section \<open>The leftmost match\<close>

text \<open>The \<open>Plus\<close> equation rewrites to itself; it is applied by hand.\<close>

declare matches.simps [simp del]

lemma is_digit_not_dot: "is_digit c \<Longrightarrow> c \<noteq> CHR ''.''"
  by (auto simp add: is_digit_def)

lemma all_digits_no_dot: "all_digits d \<Longrightarrow> \<forall>c\<in>set d. c \<noteq> CHR ''.''"
  by (auto simp add: all_digits_def list_all_iff dest: is_digit_not_dot)

lemma is_number_digits:
  assumes d: "all_digits n"
  shows "is_number n"
proof -
  have tw: "takeWhile (\<lambda>c. c \<noteq> CHR ''.'') n = n"
    using all_digits_no_dot [OF d] by simp
  have dw: "dropWhile (\<lambda>c. c \<noteq> CHR ''.'') n = []"
    using all_digits_no_dot [OF d] by simp
  show ?thesis
    unfolding is_number_def Let_def tw dw using d by simp
qed

lemma is_number_frac:
  assumes d: "all_digits d" and f: "all_digits f"
  shows "is_number (d @ CHR ''.'' # f)"
proof -
  have "takeWhile (\<lambda>c. c \<noteq> CHR ''.'') (d @ CHR ''.'' # f) = d"
    using all_digits_no_dot [OF d] by (simp add: takeWhile_tail)
  moreover have "dropWhile (\<lambda>c. c \<noteq> CHR ''.'') (d @ CHR ''.'' # f) = CHR ''.'' # f"
    using all_digits_no_dot [OF d] by (simp add: dropWhile_append2)
  ultimately show ?thesis using d f by (simp add: is_number_def)
qed

lemma is_number_cases:
  assumes n: "is_number n"
  shows "all_digits n \<or> (\<exists>d f. n = d @ CHR ''.'' # f \<and> all_digits d \<and> all_digits f)"
proof -
  define ip where "ip = takeWhile (\<lambda>c. c \<noteq> CHR ''.'') n"
  define r where "r = dropWhile (\<lambda>c. c \<noteq> CHR ''.'') n"
  have split: "n = ip @ r" by (simp add: ip_def r_def)
  from n have ip: "all_digits ip" and r: "r = [] \<or> all_digits (tl r)"
    by (simp_all add: is_number_def Let_def ip_def r_def)
  show ?thesis
  proof (cases "r = []")
    case True
    with split ip show ?thesis by simp
  next
    case False
    then have "hd r = CHR ''.''"
      unfolding r_def using hd_dropWhile [of "\<lambda>c. c \<noteq> CHR ''.''" n] by blast
    with False have "r = CHR ''.'' # tl r" by (cases r) simp_all
    with split have "n = ip @ CHR ''.'' # tl r" by simp
    with ip r False show ?thesis by blast
  qed
qed

lemma is_number_iff:
  "is_number n \<longleftrightarrow>
     all_digits n \<or> (\<exists>d f. n = d @ CHR ''.'' # f \<and> all_digits d \<and> all_digits f)"
  using is_number_cases is_number_digits is_number_frac by blast

lemma matches_Plus_Digit_Nil: "matches (Plus Digit) [] = []"
  by (simp add: matches.simps)

lemma matches_Plus_Digit_Cons:
  "matches (Plus Digit) (c # cs) =
     (if is_digit c
      then map (\<lambda>(m2, r2). (c # m2, r2)) (matches (Plus Digit) cs) @ [([c], cs)]
      else [])"
  by (subst matches.simps(6)) (simp add: matches.simps(1))

lemma matches_Plus_Digit_nodigit:
  "s = [] \<or> \<not> is_digit (hd s) \<Longrightarrow> matches (Plus Digit) s = []"
  by (cases s) (simp_all add: matches_Plus_Digit_Cons matches_Plus_Digit_Nil)

lemma matches_Plus_Digit_first:
  "all_digits d \<Longrightarrow> r = [] \<or> \<not> is_digit (hd r) \<Longrightarrow>
   \<exists>rest. matches (Plus Digit) (d @ r) = (d, r) # rest"
proof (induction d)
  case Nil
  then show ?case by (simp add: all_digits_def)
next
  case (Cons c d)
  show ?case
  proof (cases "d = []")
    case True
    with Cons.prems show ?thesis
      by (simp add: all_digits_def matches_Plus_Digit_Cons matches_Plus_Digit_nodigit)
  next
    case False
    with Cons.prems have "all_digits d" by (simp add: all_digits_def)
    from Cons.IH [OF this Cons.prems(2)] obtain rest
      where "matches (Plus Digit) (d @ r) = (d, r) # rest" by blast
    with Cons.prems show ?thesis
      by (simp add: all_digits_def matches_Plus_Digit_Cons)
  qed
qed

lemma matches_Plus_Digit_sound:
  "(m, r) \<in> set (matches (Plus Digit) s) \<Longrightarrow> s = m @ r \<and> all_digits m"
proof (induction s arbitrary: m r)
  case Nil
  then show ?case by (simp add: matches_Plus_Digit_Nil)
next
  case (Cons c cs)
  then show ?case
    by (auto simp add: matches_Plus_Digit_Cons all_digits_def split: if_splits)
qed

lemma matches_fraction:
  "matches fraction s =
     (case s of [] \<Rightarrow> []
      | c # cs \<Rightarrow> if c = CHR ''.''
          then map (\<lambda>(m, r). (CHR ''.'' # m, r)) (matches (Plus Digit) cs) else [])
     @ [([], s)]"
  by (simp add: fraction_def matches.simps(2,3,5) split: list.split)

lemma matches_number:
  "matches number s =
     concat (map (\<lambda>(m1, r1). map (\<lambda>(m2, r2). (m1 @ m2, r2)) (matches fraction r1))
       (matches (Plus Digit) s))"
  by (simp add: number_def matches.simps(3))


lemma matches_number_first_int:
  assumes "all_digits d" and "r = [] \<or> (\<not> is_digit (hd r) \<and> hd r \<noteq> CHR ''.'')"
  shows "\<exists>rest. matches number (d @ r) = (d, r) # rest"
proof -
  from assms obtain rest where "matches (Plus Digit) (d @ r) = (d, r) # rest"
    using matches_Plus_Digit_first [of d r] by blast
  with assms(2) show ?thesis
    by (cases r) (simp_all add: matches_number matches_fraction)
qed

lemma matches_number_first_frac:
  assumes "all_digits d" and "all_digits f" and "r = [] \<or> \<not> is_digit (hd r)"
  shows "\<exists>rest. matches number (d @ CHR ''.'' # f @ r) = (d @ CHR ''.'' # f, r) # rest"
proof -
  have "\<not> is_digit CHR ''.''" by (simp add: is_digit_def)
  with assms(1) obtain rest
    where 1: "matches (Plus Digit) (d @ CHR ''.'' # f @ r) = (d, CHR ''.'' # f @ r) # rest"
    using matches_Plus_Digit_first [of d "CHR ''.'' # f @ r"] by auto
  from assms(2,3) obtain rest'
    where 2: "matches (Plus Digit) (f @ r) = (f, r) # rest'"
    using matches_Plus_Digit_first [of f r] by blast
  show ?thesis
    by (simp add: matches_number matches_fraction 1 2)
qed

lemma matches_fraction_sound:
  assumes "(m, r) \<in> set (matches fraction s)"
  shows "s = m @ r \<and> (m = [] \<or> (\<exists>f. m = CHR ''.'' # f \<and> all_digits f))"
proof (cases s)
  case Nil
  with assms show ?thesis by (simp add: matches_fraction)
next
  case (Cons c cs)
  with assms show ?thesis
    by (auto simp add: matches_fraction split: if_splits dest: matches_Plus_Digit_sound)
qed

lemma matches_number_sound:
  assumes "(m, r) \<in> set (matches number s)"
  shows "s = m @ r \<and> is_number m"
proof -
  from assms obtain m1 r1 m2
    where a: "(m1, r1) \<in> set (matches (Plus Digit) s)"
      and b: "(m2, r) \<in> set (matches fraction r1)"
      and m: "m = m1 @ m2"
    by (auto simp add: matches_number)
  from a have "s = m1 @ r1" "all_digits m1"
    using matches_Plus_Digit_sound by blast+
  moreover from b have "r1 = m2 @ r" "m2 = [] \<or> (\<exists>f. m2 = CHR ''.'' # f \<and> all_digits f)"
    using matches_fraction_sound by blast+
  ultimately show ?thesis using m by (auto simp add: is_number_iff)
qed

lemma matches_number_nodigit:
  "s = [] \<or> \<not> is_digit (hd s) \<Longrightarrow> matches number s = []"
  by (simp add: matches_number matches_Plus_Digit_nodigit)

lemma unit_group_parseTime: "unit_group (snd parseTime) [''ms'', ''s'']"
  unfolding unit_group_def
proof (intro conjI allI impI ballI)
  fix s m r
  assume "(m, r) \<in> set (matches (snd parseTime) s)"
  then show "s = m @ r" and "m \<in> set [''ms'', ''s'']"
    by (auto simp add: parseTime_def matches.simps(2,3,4) split: list.splits if_splits)
next
  fix u post
  assume "u \<in> set [''ms'', ''s'']"
  then show "\<exists>rest. matches (snd parseTime) (u @ post) = (u, post) # rest"
    by (auto simp add: parseTime_def matches.simps(2,3,4))
next
  fix u :: string
  assume "u \<in> set [''ms'', ''s'']"
  then show "u \<noteq> []" and "\<not> is_digit (hd u)" and "hd u \<noteq> CHR ''.''"
    by (auto simp add: is_digit_def)
qed

lemma unit_group_parseMemory: "unit_group (snd parseMemory) [''KB'', ''MB'', ''GB'']"
  unfolding unit_group_def
proof (intro conjI allI impI ballI)
  fix s m r
  assume "(m, r) \<in> set (matches (snd parseMemory) s)"
  then show "s = m @ r" and "m \<in> set [''KB'', ''MB'', ''GB'']"
    by (auto simp add: parseMemory_def matches.simps(2,3,4) split: list.splits if_splits)
next
  fix u post
  assume "u \<in> set [''KB'', ''MB'', ''GB'']"
  then show "\<exists>rest. matches (snd parseMemory) (u @ post) = (u, post) # rest"
    by (auto simp add: parseMemory_def matches.simps(2,3,4))
next
  fix u :: string
  assume "u \<in> set [''KB'', ''MB'', ''GB'']"
  then show "u \<noteq> []" and "\<not> is_digit (hd u)" and "hd u \<noteq> CHR ''.''"
    by (auto simp add: is_digit_def)
qed


lemma submatch_here_match:
  assumes g: "unit_group g us" and n: "is_number n" and u: "u \<in> set us"
  shows "submatch_here (number, g) (n @ u @ post) = [n @ u, n, u]"
proof -
  from g u obtain rest' where 2: "matches g (u @ post) = (u, post) # rest'"
    unfolding unit_group_def by blast
  from g u have hd: "u \<noteq> []" "\<not> is_digit (hd u)" "hd u \<noteq> CHR ''.''"
    unfolding unit_group_def by blast+
  then have r: "\<not> is_digit (hd (u @ post))" "hd (u @ post) \<noteq> CHR ''.''"
    by simp_all
  have "\<exists>rest. matches number (n @ u @ post) = (n, u @ post) # rest"
    using is_number_cases [OF n]
  proof (elim disjE exE conjE)
    assume "all_digits n"
    then show ?thesis using matches_number_first_int [of n "u @ post"] r by blast
  next
    fix d f
    assume "n = d @ CHR ''.'' # f" "all_digits d" "all_digits f"
    then show ?thesis using matches_number_first_frac [of d f "u @ post"] r by auto
  qed
  then obtain rest where 1: "matches number (n @ u @ post) = (n, u @ post) # rest" ..
  show ?thesis
    by (simp add: submatch_here_def 1 2)
qed

lemma submatch_here_sound:
  assumes g: "unit_group g us" and ne: "submatch_here (number, g) s \<noteq> []"
  shows "\<exists>n u post. s = n @ u @ post \<and> is_number n \<and> u \<in> set us \<and>
           submatch_here (number, g) s = [n @ u, n, u]"
proof -
  define xs where "xs = concat (map (\<lambda>(m1, r1). map (\<lambda>(m2, r2). [m1 @ m2, m1, m2])
                         (matches g r1)) (matches number s))"
  have sh: "submatch_here (number, g) s = (case xs of [] \<Rightarrow> [] | d # _ \<Rightarrow> d)"
    by (simp add: submatch_here_def xs_def)
  with ne obtain d ds where xs: "xs = d # ds" by (cases xs) simp_all
  then have "d \<in> set xs" by simp
  then obtain m1 r1 m2 r2
    where a: "(m1, r1) \<in> set (matches number s)"
      and b: "(m2, r2) \<in> set (matches g r1)"
      and d: "d = [m1 @ m2, m1, m2]"
    unfolding xs_def by auto
  from a have "s = m1 @ r1" "is_number m1" using matches_number_sound by blast+
  moreover from g b have "r1 = m2 @ r2" "m2 \<in> set us" unfolding unit_group_def by blast+
  ultimately show ?thesis using sh xs d by auto
qed

lemma submatch_here_nodigit:
  "s = [] \<or> \<not> is_digit (hd s) \<Longrightarrow> submatch_here (number, g) s = []"
  by (simp add: submatch_here_def matches_number_nodigit)

lemma FindStringSubmatch_here:
  "submatch_here re s \<noteq> [] \<Longrightarrow> FindStringSubmatch re s = submatch_here re s"
  by (cases s) (auto split: list.splits)

lemma FindStringSubmatch_skip:
  "\<forall>c\<in>set pre. \<not> is_digit c \<Longrightarrow>
   FindStringSubmatch (number, g) (pre @ s) = FindStringSubmatch (number, g) s"
proof (induction pre)
  case Nil
  then show ?case by simp
next
  case (Cons c pre)
  then have "submatch_here (number, g) (c # pre @ s) = []"
    by (simp add: submatch_here_nodigit)
  with Cons show ?case by simp
qed

lemma FindStringSubmatch_found:
  "FindStringSubmatch re s \<noteq> [] \<Longrightarrow>
   \<exists>pre t. s = pre @ t \<and> submatch_here re t = FindStringSubmatch re s"
proof (induction s)
  case Nil
  then show ?case by simp
next
  case (Cons c cs)
  show ?case
  proof (cases "submatch_here re (c # cs) = []")
    case True
    with Cons.prems have "FindStringSubmatch re cs \<noteq> []"
      and eq: "FindStringSubmatch re (c # cs) = FindStringSubmatch re cs" by simp_all
    from Cons.IH [OF this(1)] obtain pre t
      where "cs = pre @ t" "submatch_here re t = FindStringSubmatch re cs" by blast
    then have "c # cs = (c # pre) @ t \<and> submatch_here re t = FindStringSubmatch re (c # cs)"
      using eq by simp
    then show ?thesis by blast
  next
    case False
    then have "c # cs = [] @ (c # cs) \<and>
        submatch_here re (c # cs) = FindStringSubmatch re (c # cs)"
      using FindStringSubmatch_here [of re "c # cs"] by simp
    then show ?thesis by blast
  qed
qed

lemma FindStringSubmatch_none:
  "FindStringSubmatch re (pre @ t) = [] \<Longrightarrow> submatch_here re t = []"
proof (induction pre)
  case Nil
  then show ?case using FindStringSubmatch_here [of re t] by auto
next
  case (Cons c pre)
  then show ?case by (auto split: list.splits)
qed

text \<open>The three facts about the leftmost match that the claims rest on.\<close>

lemma FindStringSubmatch_match:
  assumes "unit_group g us" and "is_number n" and "u \<in> set us"
    and "\<forall>c\<in>set pre. \<not> is_digit c"
  shows "FindStringSubmatch (number, g) (pre @ n @ u @ post) = [n @ u, n, u]"
  using assms
  by (simp add: FindStringSubmatch_skip FindStringSubmatch_here submatch_here_match)

lemma FindStringSubmatch_shape:
  assumes g: "unit_group g us" and ne: "FindStringSubmatch (number, g) s \<noteq> []"
  shows "\<exists>pre n u post. s = pre @ n @ u @ post \<and> is_number n \<and> u \<in> set us \<and>
           FindStringSubmatch (number, g) s = [n @ u, n, u]"
proof -
  from FindStringSubmatch_found [OF ne] obtain pre t
    where s: "s = pre @ t" and t: "submatch_here (number, g) t = FindStringSubmatch (number, g) s"
    by blast
  with ne have "submatch_here (number, g) t \<noteq> []" by simp
  from submatch_here_sound [OF g this] t s show ?thesis by metis
qed

lemma FindStringSubmatch_empty_iff:
  assumes g: "unit_group g us"
  shows "FindStringSubmatch (number, g) s = [] \<longleftrightarrow>
         \<not> (\<exists>pre n u post. s = pre @ n @ u @ post \<and> is_number n \<and> u \<in> set us)"
proof
  assume e: "FindStringSubmatch (number, g) s = []"
  show "\<not> (\<exists>pre n u post. s = pre @ n @ u @ post \<and> is_number n \<and> u \<in> set us)"
  proof
    assume "\<exists>pre n u post. s = pre @ n @ u @ post \<and> is_number n \<and> u \<in> set us"
    then obtain pre n u post
      where s: "s = pre @ n @ u @ post" and n: "is_number n" and u: "u \<in> set us" by blast
    from e s have "submatch_here (number, g) (n @ u @ post) = []"
      using FindStringSubmatch_none by blast
    with submatch_here_match [OF g n u, of post] show False by simp
  qed
next
  assume "\<not> (\<exists>pre n u post. s = pre @ n @ u @ post \<and> is_number n \<and> u \<in> set us)"
  with FindStringSubmatch_shape [OF g] show "FindStringSubmatch (number, g) s = []"
    by blast
qed

section \<open>Rounding to float64\<close>

lemma bitlen_pos: "0 < a \<Longrightarrow> 0 < bitlen a"
  using bitlen_eq_zero_iff [of a] bitlen_nonneg [of a] by linarith

lemma pow2_less_cancel: "power_int (2::rat) m < power_int 2 n \<Longrightarrow> m < n"
  using power_int_increasing [of n m "2::rat"] by (cases "m < n") simp_all

lemma ilog2_bounds:
  assumes q: "0 < q"
  shows "power_int 2 (ilog2 q) \<le> q \<and> q < power_int 2 (ilog2 q + 1)"
proof -
  obtain a b where ab: "quotient_of q = (a, b)" by (cases "quotient_of q")
  then have b: "0 < b" and qab: "q = of_int a / of_int b"
    using quotient_of_denom_pos quotient_of_div by blast+
  with q have a: "0 < a" by (simp add: zero_less_divide_iff)
  define la where "la = bitlen a"
  define lb where "lb = bitlen b"
  have la: "0 < la" and lb: "0 < lb" using a b by (simp_all add: la_def lb_def bitlen_pos)
  have "2 ^ nat (la - 1) \<le> a" "a < 2 ^ nat la" "2 ^ nat (lb - 1) \<le> b" "b < 2 ^ nat lb"
    using bitlen_bounds [OF a] bitlen_bounds [OF b] by (simp_all add: la_def lb_def)
  then have A: "(2::rat) ^ nat (la - 1) \<le> of_int a" "of_int a < (2::rat) ^ nat la"
    and B: "(2::rat) ^ nat (lb - 1) \<le> of_int b" "of_int b < (2::rat) ^ nat lb"
    by (metis of_int_le_iff of_int_less_iff of_int_numeral of_int_power)+
  have pa: "power_int (2::rat) la = 2 ^ nat la" "power_int (2::rat) (la - 1) = 2 ^ nat (la - 1)"
    and pb: "power_int (2::rat) lb = 2 ^ nat lb" "power_int (2::rat) (lb - 1) = 2 ^ nat (lb - 1)"
    using la lb by (simp_all add: power_int_def)
  have up: "q < power_int 2 (la - lb + 1)"
  proof -
    have "of_int a / of_int b < (2::rat) ^ nat la / 2 ^ nat (lb - 1)"
      using A B a b by (intro frac_less) simp_all
    also have "\<dots> = power_int 2 (la - (lb - 1))"
      by (simp add: power_int_diff pa pb)
    finally show ?thesis by (simp add: qab algebra_simps)
  qed
  have lo: "power_int 2 (la - lb - 1) < q"
  proof -
    have "(2::rat) ^ nat (la - 1) / 2 ^ nat lb < of_int a / of_int b"
      using A B a b by (intro frac_less2) simp_all
    moreover have "(2::rat) ^ nat (la - 1) / 2 ^ nat lb = power_int 2 ((la - 1) - lb)"
      by (simp add: power_int_diff pa pb)
    ultimately show ?thesis by (simp add: qab algebra_simps)
  qed
  show ?thesis
  proof (cases "power_int 2 (la - lb) \<le> q")
    case True
    then have "ilog2 q = la - lb" by (simp add: ilog2_def ab la_def lb_def)
    with True up show ?thesis by simp
  next
    case False
    then have "ilog2 q = la - lb - 1" by (simp add: ilog2_def ab la_def lb_def)
    with False lo show ?thesis by simp
  qed
qed

lemma ilog2_unique:
  assumes "power_int 2 e \<le> q" and "q < power_int 2 (e + 1)"
  shows "ilog2 q = e"
proof -
  have q: "0 < q" using assms(1) by (rule less_le_trans [rotated]) simp
  from ilog2_bounds [OF q] have 1: "power_int 2 (ilog2 q) \<le> q" and 2: "q < power_int 2 (ilog2 q + 1)"
    by simp_all
  from 1 assms(2) have "power_int (2::rat) (ilog2 q) < power_int 2 (e + 1)" by simp
  then have "ilog2 q < e + 1" by (rule pow2_less_cancel)
  moreover from assms(1) 2 have "power_int (2::rat) e < power_int 2 (ilog2 q + 1)" by simp
  then have "e < ilog2 q + 1" by (rule pow2_less_cancel)
  ultimately show ?thesis by simp
qed


lemma round64_eval:
  assumes "power_int 2 e \<le> q" and "q < power_int 2 (e + 1)"
  shows "round64 q =
     (let ulp = power_int 2 (max e (- 1022) - 52);
          r = of_int (round_half_even (q / ulp)) * ulp
      in if 2 ^ 1024 \<le> r then PosInf else Finite r)"
proof -
  have "0 < q" using assms(1) by (rule less_le_trans [rotated]) simp
  then show ?thesis by (simp add: round64_def ilog2_unique [OF assms])
qed

lemma round_half_even_ge: "\<lfloor>x\<rfloor> \<le> round_half_even x"
  by (simp add: round_half_even_def Let_def)

lemma round_half_even_of_int: "round_half_even (of_int k) = k"
  by (simp add: round_half_even_def)

lemma round64_overflow:
  assumes big: "2 ^ 1024 \<le> q"
  shows "round64 q = PosInf"
proof -
  have q: "0 < q" using big by (rule less_le_trans [rotated]) simp
  define e where "e = ilog2 q"
  from ilog2_bounds [OF q] have lo: "power_int 2 e \<le> q" and hi: "q < power_int 2 (e + 1)"
    by (simp_all add: e_def)
  from big hi have "power_int (2::rat) 1024 < power_int 2 (e + 1)" by simp
  then have e: "1024 \<le> e" using pow2_less_cancel by fastforce
  define ulp :: rat where "ulp = power_int 2 (e - 52)"
  have ulp: "0 < ulp" by (simp add: ulp_def)
  have "power_int 2 e = (2::rat) ^ 52 * ulp"
    unfolding ulp_def using power_int_add [of "2::rat" 52 "e - 52"] by simp
  with lo ulp have "2 ^ 52 \<le> q / ulp" by (simp add: pos_le_divide_eq)
  then have "(2::int) ^ 52 \<le> \<lfloor>q / ulp\<rfloor>" by (simp add: le_floor_iff)
  then have "(2::int) ^ 52 \<le> round_half_even (q / ulp)"
    using round_half_even_ge [of "q / ulp"] by linarith
  then have "(2::rat) ^ 52 \<le> of_int (round_half_even (q / ulp))"
    by (metis of_int_le_iff of_int_numeral of_int_power)
  then have "2 ^ 52 * ulp \<le> of_int (round_half_even (q / ulp)) * ulp"
    using ulp by (simp add: mult_right_mono)
  moreover have "(2::rat) ^ 1024 \<le> 2 ^ 52 * ulp"
    using e power_int_increasing [of 1024 e "2::rat"] \<open>power_int 2 e = 2 ^ 52 * ulp\<close> by simp
  ultimately have "2 ^ 1024 \<le> of_int (round_half_even (q / ulp)) * ulp" by linarith
  moreover have "max e (- 1022) = e" using e by simp
  ultimately show ?thesis using q by (simp add: round64_def Let_def e_def [symmetric] ulp_def)
qed

lemma round64_exact:
  assumes q: "0 < q" and lt: "q < 2 ^ 1024"
    and int: "q / power_int 2 (max (ilog2 q) (- 1022) - 52) \<in> \<int>"
  shows "round64 q = Finite q"
proof -
  from int obtain k where k: "q / power_int 2 (max (ilog2 q) (- 1022) - 52) = of_int k"
    by (auto elim: Ints_cases)
  then have "of_int k * power_int 2 (max (ilog2 q) (- 1022) - 52) = q" by (simp add: field_simps)
  with q lt show ?thesis
    by (simp add: round64_def Let_def k round_half_even_of_int)
qed

lemma round64_int:
  assumes n0: "0 \<le> n" and n53: "n \<le> 2 ^ 53"
  shows "round64 (of_int n) = Finite (of_int n)"
proof (cases "n = 0")
  case True
  then show ?thesis by (simp add: round64_def)
next
  case False
  with n0 have n: "0 < n" by simp
  define q :: rat where "q = of_int n"
  have q: "0 < q" "1 \<le> q" using n by (simp_all add: q_def)
  have q53: "q \<le> 2 ^ 53"
    unfolding q_def using n53 by (metis of_int_le_iff of_int_numeral of_int_power)
  define e where "e = ilog2 q"
  from ilog2_bounds [OF q(1)] have lo: "power_int 2 e \<le> q" and hi: "q < power_int 2 (e + 1)"
    by (simp_all add: e_def)
  from q(2) hi have "power_int (2::rat) 0 < power_int 2 (e + 1)" by simp
  then have e0: "0 \<le> e" using pow2_less_cancel by fastforce
  from lo q53 have "power_int (2::rat) e < power_int 2 54" by simp
  then have e53: "e \<le> 53" using pow2_less_cancel by fastforce
  have "q / power_int 2 (e - 52) \<in> \<int>"
  proof (cases "e = 53")
    case True
    with lo q53 have "q = 2 ^ 53" by simp
    with True show ?thesis by simp
  next
    case False
    with e53 have "0 \<le> 52 - e" by simp
    then have "power_int (2::rat) (52 - e) = 2 ^ nat (52 - e)" by (simp add: power_int_def)
    moreover have "q / power_int 2 (e - 52) = q * power_int 2 (52 - e)"
      using power_int_minus [of "2::rat" "e - 52"] by (simp add: field_simps)
    ultimately show ?thesis by (simp add: q_def)
  qed
  moreover have "max e (- 1022) = e" using e0 by simp
  moreover have "q < 2 ^ 1024" using q53 by (rule le_less_trans) simp
  ultimately show ?thesis
    using round64_exact [OF q(1)] by (simp add: e_def q_def)
qed

lemma pow2_Ints: "0 \<le> m \<Longrightarrow> power_int (2::rat) m \<in> \<int>"
  by (simp add: power_int_def)

lemma pow2_split: "c = a + b \<Longrightarrow> power_int (2::rat) c = power_int 2 a * power_int 2 b"
  by (simp add: power_int_add)

lemma pow2_quot: "c = a - b \<Longrightarrow> power_int (2::rat) c = power_int 2 a / power_int 2 b"
  by (simp add: power_int_diff)

lemma round_half_even_le: "round_half_even x \<le> \<lfloor>x\<rfloor> + 1"
  by (simp add: round_half_even_def Let_def)

lemma round64_Finite_grid:
  assumes r: "round64 q = Finite t"
  shows "t = 0 \<or> (0 < t \<and> t < 2 ^ 1024 \<and> t / power_int 2 (max (ilog2 t) (- 1022) - 52) \<in> \<int>)"
proof (cases "q \<le> 0")
  case True
  with r show ?thesis by (simp add: round64_def)
next
  case False
  then have q: "0 < q" by simp
  define E where "E = max (ilog2 q) (- 1022)"
  define u :: rat where "u = power_int 2 (E - 52)"
  define k where "k = round_half_even (q / u)"
  have u: "0 < u" by (simp add: u_def)
  from r q have t: "t = of_int k * u" and lt: "t < 2 ^ 1024"
    by (simp_all add: round64_def Let_def E_def u_def k_def split: if_splits)
  have "q < power_int 2 (ilog2 q + 1)" using ilog2_bounds [OF q] by simp
  also have "\<dots> \<le> power_int 2 (E + 1)"
    by (rule power_int_increasing) (simp_all add: E_def)
  finally have qE: "q < power_int 2 (E + 1)" .
  have split: "power_int (2::rat) (E + 1) = 2 ^ 53 * u"
    unfolding u_def using pow2_split [of "E + 1" 53 "E - 52"] by simp
  have "q / u < 2 ^ 53" using qE u by (simp add: split pos_divide_less_eq)
  then have fl: "\<lfloor>q / u\<rfloor> < 2 ^ 53" by (simp add: floor_less_iff)
  have k53: "k \<le> 2 ^ 53"
    unfolding k_def using round_half_even_le [of "q / u"] fl by linarith
  have "0 \<le> q / u" using q u by simp
  then have fl0: "0 \<le> \<lfloor>q / u\<rfloor>" by (simp only: zero_le_floor)
  have k0: "0 \<le> k"
    unfolding k_def using round_half_even_ge [of "q / u"] fl0 by linarith
  show ?thesis
  proof (cases "k = 0")
    case True
    with t show ?thesis by simp
  next
    case False
    with k0 have kpos: "0 < k" by simp
    with u t have tpos: "0 < t" by simp
    define E' where "E' = max (ilog2 t) (- 1022)"
    have "t / power_int 2 (E' - 52) \<in> \<int>"
    proof (cases "k = 2 ^ 53")
      case True
      with t split have tE: "t = power_int 2 (E + 1)" by simp
      then have "ilog2 t = E + 1"
        by (intro ilog2_unique) (simp_all add: power_int_strict_increasing)
      moreover have "- 1022 \<le> E" by (simp add: E_def)
      ultimately have "E' = E + 1" by (simp add: E'_def)
      then have "t / power_int 2 (E' - 52) = power_int 2 (E + 1) / power_int 2 (E + 1 - 52)"
        by (simp add: tE)
      also have "\<dots> = power_int 2 ((E + 1) - (E + 1 - 52))"
        by (subst power_int_diff) simp_all
      finally show ?thesis by simp
    next
      case False
      with k53 have "k < 2 ^ 53" by simp
      then have "of_int k < (2::rat) ^ 53"
        by (metis of_int_less_iff of_int_numeral of_int_power)
      then have "t < power_int 2 (E + 1)" using u by (simp add: t split)
      moreover have "power_int 2 (ilog2 t) \<le> t" using ilog2_bounds [OF tpos] by simp
      ultimately have "power_int (2::rat) (ilog2 t) < power_int 2 (E + 1)" by simp
      then have "ilog2 t < E + 1" by (rule pow2_less_cancel)
      moreover have "- 1022 \<le> E" by (simp add: E_def)
      ultimately have le: "E' \<le> E" by (simp add: E'_def)
      have uq: "u / power_int 2 (E' - 52) = power_int 2 (E - E')"
        unfolding u_def using pow2_quot [of "E - E'" "E - 52" "E' - 52"] by simp
      have "t / power_int 2 (E' - 52) = of_int k * (u / power_int 2 (E' - 52))"
        by (simp add: t)
      then have "t / power_int 2 (E' - 52) = of_int k * power_int 2 (E - E')"
        by (simp only: uq)
      with le show ?thesis by (simp add: pow2_Ints)
    qed
    with tpos lt show ?thesis by (simp add: E'_def)
  qed
qed

lemma ilog2_times_pow2:
  assumes t: "0 < t"
  shows "ilog2 (t * 2 ^ j) = ilog2 t + int j"
proof (rule ilog2_unique)
  have p: "power_int (2::rat) (ilog2 t + int j) = power_int 2 (ilog2 t) * 2 ^ j"
    "power_int (2::rat) (ilog2 t + int j + 1) = power_int 2 (ilog2 t + 1) * 2 ^ j"
    using power_int_add [of "2::rat" "ilog2 t" "int j"]
      power_int_add [of "2::rat" "ilog2 t + 1" "int j"] by (simp_all add: add.commute add.left_commute)
  show "power_int 2 (ilog2 t + int j) \<le> t * 2 ^ j"
    using ilog2_bounds [OF t] by (simp add: p)
  show "t * 2 ^ j < power_int 2 (ilog2 t + int j + 1)"
    using ilog2_bounds [OF t] by (simp add: p)
qed

lemma round64_times_pow2:
  assumes r: "round64 q = Finite t" and lt: "t * 2 ^ j < 2 ^ 1024"
  shows "round64 (t * 2 ^ j) = Finite (t * 2 ^ j)"
proof -
  from round64_Finite_grid [OF r] show ?thesis
  proof
    assume "t = 0"
    then show ?thesis by (simp add: round64_def)
  next
    assume a: "0 < t \<and> t < 2 ^ 1024 \<and> t / power_int 2 (max (ilog2 t) (- 1022) - 52) \<in> \<int>"
    then have t: "0 < t" and grid: "t / power_int 2 (max (ilog2 t) (- 1022) - 52) \<in> \<int>" by simp_all
    define E where "E = max (ilog2 t) (- 1022)"
    define E' where "E' = max (ilog2 t + int j) (- 1022)"
    have le: "E' \<le> E + int j" by (simp add: E_def E'_def)
    have "power_int (2::rat) (E + int j - E') = power_int 2 (E - 52) * 2 ^ j / power_int 2 (E' - 52)"
      using pow2_quot [of "E + int j - E'" "E - 52 + int j" "E' - 52"]
        pow2_split [of "E - 52 + int j" "E - 52" "int j"] by simp
    then have eq: "t * 2 ^ j / power_int 2 (E' - 52) =
        (t / power_int 2 (E - 52)) * power_int 2 (E + int j - E')"
      by simp
    have "power_int (2::rat) (E + int j - E') \<in> \<int>"
      using le by (simp add: pow2_Ints)
    moreover have "t / power_int 2 (E - 52) \<in> \<int>"
      using grid by (simp add: E_def)
    ultimately have "(t / power_int 2 (E - 52)) * power_int 2 (E + int j - E') \<in> \<int>"
      by (intro Ints_mult)
    then have "t * 2 ^ j / power_int 2 (E' - 52) \<in> \<int>" by (simp only: eq)
    then have "t * 2 ^ j / power_int 2 (max (ilog2 (t * 2 ^ j)) (- 1022) - 52) \<in> \<int>"
      by (simp add: ilog2_times_pow2 [OF t] E'_def)
    moreover have "0 < t * 2 ^ j" using t by simp
    ultimately show ?thesis using lt by (intro round64_exact)
  qed
qed


text \<open>Rounding at a given input: the exponent and the nearest multiple are supplied.\<close>

lemma round_half_even_nearest:
  assumes "\<bar>x - of_int k\<bar> < 1 / 2"
  shows "round_half_even x = k"
proof (cases "of_int k \<le> x")
  case True
  with assms have "\<lfloor>x\<rfloor> = k" by (intro floor_unique) linarith+
  with assms True show ?thesis by (simp add: round_half_even_def Let_def)
next
  case False
  with assms have "\<lfloor>x\<rfloor> = k - 1" by (intro floor_unique) (simp, linarith)+
  with assms False show ?thesis by (auto simp add: round_half_even_def Let_def)
qed

lemma round64_nearest:
  assumes "power_int 2 e \<le> q" and "q < power_int 2 (e + 1)"
    and "\<bar>q / power_int 2 (max e (- 1022) - 52) - of_int k\<bar> < 1 / 2"
    and "of_int k * power_int 2 (max e (- 1022) - 52) < (2::rat) ^ 1024"
  shows "round64 q = Finite (of_int k * power_int 2 (max e (- 1022) - 52))"
  using assms(4)
  by (simp add: round64_eval [OF assms(1,2)] Let_def round_half_even_nearest [OF assms(3)])

lemma round_half_even_tie:
  assumes "x = of_int k + 1 / 2" and "even k"
  shows "round_half_even x = k"
proof -
  from assms(1) have "\<lfloor>x\<rfloor> = k" by (intro floor_unique) simp_all
  with assms show ?thesis by (simp add: round_half_even_def Let_def)
qed

lemma round64_tie_even:
  assumes "power_int 2 e \<le> q" and "q < power_int 2 (e + 1)"
    and "q / power_int 2 (max e (- 1022) - 52) = of_int k + 1 / 2" and "even k"
    and "of_int k * power_int 2 (max e (- 1022) - 52) < (2::rat) ^ 1024"
  shows "round64 q = Finite (of_int k * power_int 2 (max e (- 1022) - 52))"
  using assms(5)
  by (simp add: round64_eval [OF assms(1,2)] Let_def round_half_even_tie [OF assms(3,4)])

section \<open>The parsers on a stamp\<close>

lemma digit_val_range: "is_digit c \<Longrightarrow> 0 \<le> digit_val c \<and> digit_val c \<le> 9"
  by (auto simp add: is_digit_def digit_val_def)

lemma digits_val_snoc: "digits_val (d @ [c]) = 10 * digits_val d + digit_val c"
  by (simp add: digits_val_def)

lemma digits_val_nonneg: "list_all is_digit d \<Longrightarrow> 0 \<le> digits_val d"
proof (induction d rule: rev_induct)
  case Nil
  then show ?case by (simp add: digits_val_def)
next
  case (snoc c d)
  then show ?case using digit_val_range [of c] by (simp add: digits_val_snoc)
qed

lemma decimal_value_digits:
  assumes d: "all_digits d"
  shows "decimal_value d = of_int (digits_val d)"
proof -
  have tw: "takeWhile (\<lambda>c. c \<noteq> CHR ''.'') d = d"
    using all_digits_no_dot [OF d] by simp
  have dw: "dropWhile (\<lambda>c. c \<noteq> CHR ''.'') d = []"
    using all_digits_no_dot [OF d] by simp
  show ?thesis
    unfolding decimal_value_def Let_def tw dw by (simp add: digits_val_def)
qed

lemma parseTime_shape: "parseTime = (number, snd parseTime)"
  by (simp add: parseTime_def)

lemma parseMemory_shape: "parseMemory = (number, snd parseMemory)"
  by (simp add: parseMemory_def)

lemma FindStringSubmatch_parseTime:
  assumes "is_number n" and "u \<in> set [''ms'', ''s'']" and "\<forall>c\<in>set pre. \<not> is_digit c"
  shows "FindStringSubmatch parseTime (pre @ n @ u @ post) = [n @ u, n, u]"
  using FindStringSubmatch_match [OF unit_group_parseTime assms] parseTime_shape by simp

lemma FindStringSubmatch_parseMemory:
  assumes "is_number n" and "u \<in> set [''KB'', ''MB'', ''GB'']" and "\<forall>c\<in>set pre. \<not> is_digit c"
  shows "FindStringSubmatch parseMemory (pre @ n @ u @ post) = [n @ u, n, u]"
  using FindStringSubmatch_match [OF unit_group_parseMemory assms] parseMemory_shape by simp

text \<open>What the parsers do once the leftmost match is known.\<close>

lemma ParseTime_stamp:
  assumes "is_number n" and "u \<in> set [''ms'', ''s'']" and "\<forall>c\<in>set pre. \<not> is_digit c"
  shows "ParseTime impl (pre @ n @ u @ post) =
     (case round64 (decimal_value n) of
        PosInf \<Rightarrow> (0, Some ErrRange)
      | Finite t \<Rightarrow>
          if u = ''ms'' then
            (if of_int \<lfloor>t\<rfloor> \<noteq> t then (0, Some ErrorSplitAtomic)
             else (int_of_float64 impl (Finite t), None))
          else (int_of_float64 impl (round64 (t * 1000)), None))"
  using assms(2)
  by (auto simp add: ParseTime_def FindStringSubmatch_parseTime [OF assms] ParseFloat_def
        Trunc_def fmul_def split: float64.split)

lemma ParseMemory_stamp:
  assumes "is_number n" and "u \<in> set [''KB'', ''MB'', ''GB'']"
    and "\<forall>c\<in>set pre. \<not> is_digit c"
  shows "ParseMemory impl (pre @ n @ u @ post) =
     (case round64 (decimal_value n) of
        PosInf \<Rightarrow> (0, Some ErrRange)
      | Finite t \<Rightarrow>
          if u = ''KB'' then
            (if of_int \<lfloor>t\<rfloor> \<noteq> t then (0, Some ErrorSplitAtomic)
             else (int_of_float64 impl (Finite t), None))
          else if u = ''MB'' then (int_of_float64 impl (round64 (t * 1024)), None)
          else (int_of_float64 impl (fmul (round64 (t * 1024)) 1024), None))"
  using assms(2)
  by (auto simp add: ParseMemory_def FindStringSubmatch_parseMemory [OF assms] ParseFloat_def
        Trunc_def fmul_def split: float64.split)

lemma digits_val_int:
  assumes d: "all_digits d" and le: "digits_val d \<le> 2 ^ 53"
  shows "round64 (decimal_value d) = Finite (of_int (digits_val d))"
  using d le by (simp add: decimal_value_digits round64_int digits_val_nonneg all_digits_def)

lemma int_of_float64_int: "k < 2 ^ 63 \<Longrightarrow> int_of_float64 impl (Finite (of_int k)) = k"
  by (simp add: int_of_float64_def)

lemma int_of_float64_floor: "p < 2 ^ 63 \<Longrightarrow> int_of_float64 impl (Finite p) = \<lfloor>p\<rfloor>"
  by (simp add: int_of_float64_def floor_less_iff)

lemma ParseTime_s:
  assumes "is_number n" and "round64 (decimal_value n) = Finite t"
    and "round64 (t * 1000) = Finite p" and "p < 2 ^ 63"
  shows "ParseTime impl (n @ ''s'') = (\<lfloor>p\<rfloor>, None)"
  using ParseTime_stamp [of n "''s''" "[]" impl "[]"] assms
  by (simp add: int_of_float64_floor)

lemma ParseTime_s_int:
  assumes d: "all_digits d" and le: "digits_val d * 1000 \<le> 2 ^ 53"
  shows "ParseTime impl (d @ ''s'') = (digits_val d * 1000, None)"
proof -
  have n0: "0 \<le> digits_val d" using d by (simp add: digits_val_nonneg all_digits_def)
  with le have le': "digits_val d \<le> 2 ^ 53" by simp
  have 1: "round64 (decimal_value d) = Finite (of_int (digits_val d))"
    using d le' by (rule digits_val_int)
  have 2: "round64 (of_int (digits_val d) * 1000) = Finite (of_int (digits_val d * 1000))"
    using round64_int [of "digits_val d * 1000"] n0 le by simp
  have 3: "(of_int (digits_val d * 1000) :: rat) < 2 ^ 63"
  proof -
    have "digits_val d * 1000 < 2 ^ 63" using le by simp
    then show ?thesis by (metis of_int_less_iff of_int_numeral of_int_power)
  qed
  from ParseTime_s [OF is_number_digits [OF d] 1 2 3]
  have "ParseTime impl (d @ ''s'') = (\<lfloor>of_int (digits_val d * 1000) :: rat\<rfloor>, None)" .
  then show ?thesis by (simp only: floor_of_int)
qed

lemma ParseTime_ms_int:
  assumes d: "all_digits d" and le: "digits_val d \<le> 2 ^ 53"
  shows "ParseTime impl (d @ ''ms'') = (digits_val d, None)"
  using ParseTime_stamp [of d "''ms''" "[]" impl "[]"] is_number_digits [OF d] le
  by (simp add: digits_val_int [OF d le] int_of_float64_int)

section \<open>The value of a time stamp\<close>

text \<open>The definitions that evaluate a concrete stamp.\<close>

lemmas stamp_eval = is_number_def all_digits_def is_digit_def decimal_value_def digits_val_def
  digit_val_def

lemma round64_three_quarters: "round64 (3 / 4) = Finite (3 / 4)"
  using round64_nearest [of "- 1" "3 / 4" 6755399441055744] by simp

lemma round64_750: "round64 750 = Finite 750"
  using round64_int [of 750] by simp

lemma ParseTime_1s: "ParseTime impl ''1s'' = (1000, None)"
  using ParseTime_s_int [of "''1''" impl] by (simp add: stamp_eval)

lemma ParseTime_500ms: "ParseTime impl ''500ms'' = (500, None)"
  using ParseTime_ms_int [of "''500''" impl] by (simp add: stamp_eval)

lemma ParseTime_075s: "ParseTime impl ''0.75s'' = (750, None)"
  using ParseTime_s [of "''0.75''" "3 / 4" 750 impl]
  by (simp add: stamp_eval round64_three_quarters round64_750)

lemma round64_1001: "round64 (1001 / 1000) = Finite (2254051613498933 / 2251799813685248)"
  using round64_nearest [of "0" "1001 / 1000" 4508103226997866] by simp

lemma round64_1001_1000:
  "round64 (2254051613498933 / 2251799813685248 * 1000) = Finite (8804889115230207 / 8796093022208)"
  using round64_nearest [of "9" "2254051613498933 / 2251799813685248 * 1000" 8804889115230207]
  by simp

lemma ParseTime_1001ms: "ParseTime impl ''1001ms'' = (1001, None)"
  using ParseTime_ms_int [of "''1001''" impl] by (simp add: stamp_eval)

lemma ParseTime_1001s: "ParseTime impl ''1.001s'' = (1000, None)"
proof -
  have 1: "is_number ''1.001''" by (simp add: stamp_eval)
  have 2: "round64 (decimal_value ''1.001'') = Finite (2254051613498933 / 2251799813685248)"
    by (simp add: stamp_eval round64_1001)
  have 3: "(8804889115230207 / 8796093022208 :: rat) < 2 ^ 63" by simp
  from ParseTime_s [OF 1 2 round64_1001_1000 3, of impl]
  show ?thesis by (simp add: floor_eq_iff)
qed

text \<open>
  Claim C3. The claim is what \<open>ParseTime\<close> is meant to do, and the three stamps of
  the spec give 1000, 500 and 750. The code misses it at \<^verbatim>\<open>1.001s\<close>: the number is
  turned into a float64 and multiplied there, the product comes out as
  1000.9999999999999, and the result is 1000, where 1.001 times 1000 is 1001 and
  where \<^verbatim>\<open>1001ms\<close> gives 1001.
\<close>

theorem ParseTime_float64_slip:
  "ParseTime impl ''1.001s'' = (1000, None) \<and>
   \<lfloor>decimal_value ''1.001'' * 1000\<rfloor> = 1001 \<and>
   ParseTime impl ''1001ms'' = (1001, None) \<and>
   ParseTime impl ''1s'' = (1000, None) \<and>
   ParseTime impl ''500ms'' = (500, None) \<and>
   ParseTime impl ''0.75s'' = (750, None)"
proof -
  have "\<lfloor>decimal_value ''1.001'' * 1000\<rfloor> = 1001" by (simp add: stamp_eval)
  with ParseTime_1001s [of impl] ParseTime_1001ms [of impl] ParseTime_1s [of impl]
    ParseTime_500ms [of impl] ParseTime_075s [of impl]
  show ?thesis by (intro conjI)
qed

section \<open>The value of a memory stamp\<close>

lemma round64_nonneg:
  assumes "round64 q = Finite t"
  shows "0 \<le> t"
  using round64_Finite_grid [OF assms] by auto

lemma lt_pow63_pow1024: "x < 2 ^ 63 \<Longrightarrow> (x::rat) < 2 ^ 1024"
  by (erule less_trans) simp

lemma ParseMemory_MB:
  assumes n: "is_number n" and r: "round64 (decimal_value n) = Finite t"
    and lt: "t * 1024 < 2 ^ 63"
  shows "ParseMemory impl (n @ ''MB'') = (\<lfloor>t * 1024\<rfloor>, None)"
proof -
  have "t * 2 ^ 10 < 2 ^ 1024" using lt_pow63_pow1024 [OF lt] by simp
  from round64_times_pow2 [OF r this] have "round64 (t * 1024) = Finite (t * 1024)" by simp
  with ParseMemory_stamp [of n "''MB''" "[]" impl "[]"] n r lt show ?thesis
    by (simp add: int_of_float64_floor)
qed

lemma ParseMemory_GB:
  assumes n: "is_number n" and r: "round64 (decimal_value n) = Finite t"
    and lt: "t * 1024 * 1024 < 2 ^ 63"
  shows "ParseMemory impl (n @ ''GB'') = (\<lfloor>t * 1024 * 1024\<rfloor>, None)"
proof -
  have t0: "0 \<le> t" using r by (rule round64_nonneg)
  then have "t * 2 ^ 10 \<le> t * 1024 * 1024" by simp
  also have "\<dots> < 2 ^ 1024" using lt by (rule lt_pow63_pow1024)
  finally have "round64 (t * 2 ^ 10) = Finite (t * 2 ^ 10)" by (rule round64_times_pow2 [OF r])
  then have 1: "round64 (t * 1024) = Finite (t * 1024)" by simp
  have e20: "t * 1024 * 1024 = t * 2 ^ 20" by simp
  have "t * 2 ^ 20 < 2 ^ 1024" using lt_pow63_pow1024 [OF lt] by (simp only: e20)
  from round64_times_pow2 [OF r this]
  have 2: "round64 (t * 1024 * 1024) = Finite (t * 1024 * 1024)" by (simp only: e20)
  with ParseMemory_stamp [of n "''GB''" "[]" impl "[]"] n r lt 1 show ?thesis
    by (simp add: int_of_float64_floor fmul_def)
qed

lemma of_int_less_pow2: "k < 2 ^ j \<Longrightarrow> (of_int k :: rat) < 2 ^ j"
  by (metis of_int_less_iff of_int_numeral of_int_power)

lemma ParseMemory_KB_int:
  assumes d: "all_digits d" and le: "digits_val d \<le> 2 ^ 53"
  shows "ParseMemory impl (d @ ''KB'') = (digits_val d, None)"
  using ParseMemory_stamp [of d "''KB''" "[]" impl "[]"] is_number_digits [OF d] le
  by (simp add: digits_val_int [OF d le] int_of_float64_int)

lemma ParseMemory_MB_int:
  assumes d: "all_digits d" and lt: "digits_val d < 2 ^ 53"
  shows "ParseMemory impl (d @ ''MB'') = (digits_val d * 1024, None)"
proof -
  have r: "round64 (decimal_value d) = Finite (of_int (digits_val d))"
    using d lt by (intro digits_val_int) simp_all
  have "digits_val d * 1024 < 2 ^ 63" using lt by simp
  then have "(of_int (digits_val d * 1024) :: rat) < 2 ^ 63" by (rule of_int_less_pow2)
  then have "(of_int (digits_val d) :: rat) * 1024 < 2 ^ 63" by simp
  from ParseMemory_MB [OF is_number_digits [OF d] r this]
  have "ParseMemory impl (d @ ''MB'') = (\<lfloor>of_int (digits_val d * 1024) :: rat\<rfloor>, None)"
    by simp
  then show ?thesis by (simp only: floor_of_int)
qed

lemma ParseMemory_GB_int:
  assumes d: "all_digits d" and lt: "digits_val d < 2 ^ 43"
  shows "ParseMemory impl (d @ ''GB'') = (digits_val d * 1048576, None)"
proof -
  have r: "round64 (decimal_value d) = Finite (of_int (digits_val d))"
    using d lt by (intro digits_val_int) simp_all
  have "digits_val d * 1048576 < 2 ^ 63" using lt by simp
  then have "(of_int (digits_val d * 1048576) :: rat) < 2 ^ 63" by (rule of_int_less_pow2)
  then have lt': "(of_int (digits_val d) :: rat) * 1024 * 1024 < 2 ^ 63" by simp
  have eq: "(of_int (digits_val d) :: rat) * 1024 * 1024 = of_int (digits_val d * 1048576)"
    by simp
  from ParseMemory_GB [OF is_number_digits [OF d] r lt']
  have "ParseMemory impl (d @ ''GB'') = (\<lfloor>(of_int (digits_val d) :: rat) * 1024 * 1024\<rfloor>, None)" .
  then show ?thesis by (simp only: eq floor_of_int)
qed

lemma round64_half: "round64 (1 / 2) = Finite (1 / 2)"
  using round64_nearest [of "- 1" "1 / 2" 4503599627370496] by simp

lemma ParseMemory_500KB: "ParseMemory impl ''500KB'' = (500, None)"
  using ParseMemory_KB_int [of "''500''" impl] by (simp add: stamp_eval)

lemma ParseMemory_10MB: "ParseMemory impl ''10MB'' = (10240, None)"
  using ParseMemory_MB_int [of "''10''" impl] by (simp add: stamp_eval)

lemma ParseMemory_1GB: "ParseMemory impl ''1GB'' = (1048576, None)"
  using ParseMemory_GB_int [of "''1''" impl] by (simp add: stamp_eval)

lemma ParseMemory_05MB: "ParseMemory impl ''0.5MB'' = (512, None)"
  using ParseMemory_MB [of "''0.5''" "1 / 2" impl] by (simp add: stamp_eval round64_half)

lemma ParseMemory_075GB: "ParseMemory impl ''0.75GB'' = (786432, None)"
  using ParseMemory_GB [of "''0.75''" "3 / 4" impl]
  by (simp add: stamp_eval round64_three_quarters)

lemma FindStringSubmatch_10B: "FindStringSubmatch parseMemory ''10B'' = []"
  by (simp add: parseMemory_def submatch_here_def matches_number matches_fraction
        matches_Plus_Digit_Cons matches_Plus_Digit_Nil matches.simps(2,3,4) is_digit_def)

lemma ParseMemory_10B: "ParseMemory impl ''10B'' = (0, Some ErrorMalformedStamp)"
  unfolding ParseMemory_def FindStringSubmatch_10B by simp

lemma round64_2p53_1: "round64 9007199254740993 = Finite 9007199254740992"
  using round64_tie_even [of 53 9007199254740993 4503599627370496] by simp

lemma ParseMemory_2p53_1_KB: "ParseMemory impl ''9007199254740993KB'' = (9007199254740992, None)"
  using ParseMemory_stamp [of "''9007199254740993''" "''KB''" "[]" impl "[]"]
  by (simp add: stamp_eval round64_2p53_1 int_of_float64_def)

lemma round64_nines:
  "round64 (99999999999999999999 / 100000000000000000000) = Finite 1"
  using round64_nearest [of "- 1" "99999999999999999999 / 100000000000000000000"
      9007199254740992]
  by simp

lemma ParseMemory_nines_MB: "ParseMemory impl ''0.99999999999999999999MB'' = (1024, None)"
proof -
  have 1: "is_number ''0.99999999999999999999''" by (simp add: stamp_eval)
  have 2: "round64 (decimal_value ''0.99999999999999999999'') = Finite 1"
    by (simp add: stamp_eval round64_nines)
  from ParseMemory_MB [OF 1 2, of impl] show ?thesis by simp
qed

lemma ParseMemory_nines_GB: "ParseMemory impl ''0.99999999999999999999GB'' = (1048576, None)"
proof -
  have 1: "is_number ''0.99999999999999999999''" by (simp add: stamp_eval)
  have 2: "round64 (decimal_value ''0.99999999999999999999'') = Finite 1"
    by (simp add: stamp_eval round64_nines)
  from ParseMemory_GB [OF 1 2, of impl] show ?thesis by simp
qed

text \<open>
  Claim C4. The claim is what \<open>ParseMemory\<close> is meant to do, and the stamps of the
  spec give 500, 10240, 1048576, 512 and 786432, with \<^verbatim>\<open>10B\<close> malformed. The code
  misses it where the float64 it works in cannot hold the number:
  \<^verbatim>\<open>9007199254740993KB\<close> gives 9007199254740992, and twenty nines after the point
  are read as 1, so that \<^verbatim>\<open>0.99999999999999999999MB\<close> gives 1024 instead of 1023
  and the same number of gigabytes gives 1048576 instead of 1048575.
\<close>

theorem ParseMemory_float64_slip:
  "ParseMemory impl ''9007199254740993KB'' = (9007199254740992, None) \<and>
   ParseMemory impl ''0.99999999999999999999MB'' = (1024, None) \<and>
   \<lfloor>decimal_value ''0.99999999999999999999'' * 1024\<rfloor> = 1023 \<and>
   ParseMemory impl ''0.99999999999999999999GB'' = (1048576, None) \<and>
   \<lfloor>decimal_value ''0.99999999999999999999'' * 1024 * 1024\<rfloor> = 1048575 \<and>
   ParseMemory impl ''500KB'' = (500, None) \<and>
   ParseMemory impl ''10MB'' = (10240, None) \<and>
   ParseMemory impl ''1GB'' = (1048576, None) \<and>
   ParseMemory impl ''0.5MB'' = (512, None) \<and>
   ParseMemory impl ''0.75GB'' = (786432, None) \<and>
   ParseMemory impl ''10B'' = (0, Some ErrorMalformedStamp)"
proof -
  have a: "\<lfloor>decimal_value ''0.99999999999999999999'' * 1024\<rfloor> = 1023"
    by (simp add: stamp_eval floor_eq_iff)
  have b: "\<lfloor>decimal_value ''0.99999999999999999999'' * 1024 * 1024\<rfloor> = 1048575"
    by (simp add: stamp_eval floor_eq_iff)
  from ParseMemory_2p53_1_KB [of impl] ParseMemory_nines_MB [of impl] a
    ParseMemory_nines_GB [of impl] b ParseMemory_500KB [of impl] ParseMemory_10MB [of impl]
    ParseMemory_1GB [of impl] ParseMemory_05MB [of impl] ParseMemory_075GB [of impl]
    ParseMemory_10B [of impl]
  show ?thesis by (intro conjI)
qed

section \<open>Fractions of an atomic unit\<close>

lemma ParseTime_ms_fraction:
  assumes "is_number n" and "round64 (decimal_value n) = Finite t" and "t \<notin> \<int>"
  shows "ParseTime impl (n @ ''ms'') = (0, Some ErrorSplitAtomic)"
  using ParseTime_stamp [of n "''ms''" "[]" impl "[]"] assms
  by (auto simp add: Ints_def)

lemma ParseMemory_KB_fraction:
  assumes "is_number n" and "round64 (decimal_value n) = Finite t" and "t \<notin> \<int>"
  shows "ParseMemory impl (n @ ''KB'') = (0, Some ErrorSplitAtomic)"
  using ParseMemory_stamp [of n "''KB''" "[]" impl "[]"] assms
  by (auto simp add: Ints_def)

lemma half_not_Ints: "(1 / 2 :: rat) \<notin> \<int>"
proof
  assume "(1 / 2 :: rat) \<in> \<int>"
  then obtain k :: int where "(1 / 2 :: rat) = of_int k" by (auto elim: Ints_cases)
  then have "(of_int (2 * k) :: rat) = of_int 1" by simp
  then have "2 * k = 1" by (simp only: of_int_eq_iff)
  then show False by presburger
qed

lemma ParseTime_05ms: "ParseTime impl ''0.5ms'' = (0, Some ErrorSplitAtomic)"
  using ParseTime_ms_fraction [of "''0.5''" "1 / 2" impl] half_not_Ints
  by (simp add: stamp_eval round64_half)

lemma ParseMemory_05KB: "ParseMemory impl ''0.5KB'' = (0, Some ErrorSplitAtomic)"
  using ParseMemory_KB_fraction [of "''0.5''" "1 / 2" impl] half_not_Ints
  by (simp add: stamp_eval round64_half)

lemma round64_one_and_a_bit:
  "round64 (100000000000000001 / 100000000000000000) = Finite 1"
  using round64_nearest [of 0 "100000000000000001 / 100000000000000000" 4503599627370496]
  by simp

lemma ParseTime_bit_ms: "ParseTime impl ''1.00000000000000001ms'' = (1, None)"
  using ParseTime_stamp [of "''1.00000000000000001''" "''ms''" "[]" impl "[]"]
  by (simp add: stamp_eval round64_one_and_a_bit int_of_float64_def)

lemma ParseMemory_bit_KB: "ParseMemory impl ''1.00000000000000001KB'' = (1, None)"
  using ParseMemory_stamp [of "''1.00000000000000001''" "''KB''" "[]" impl "[]"]
  by (simp add: stamp_eval round64_one_and_a_bit int_of_float64_def)

text \<open>
  Claim C5. The claim is what the parsers are meant to do: \<^verbatim>\<open>0.5ms\<close> and
  \<^verbatim>\<open>0.5KB\<close> fail with \<open>ErrorSplitAtomic\<close>. The code misses it at
  \<^verbatim>\<open>1.00000000000000001\<close>, a number between 1 and 2: the test for a fraction is
  made on the float64 nearest to the number, which is 1, and the parsers return 1
  millisecond and 1 kilobyte without an error.
\<close>

theorem atomic_unit_float64_slip:
  "ParseTime impl ''1.00000000000000001ms'' = (1, None) \<and>
   ParseMemory impl ''1.00000000000000001KB'' = (1, None) \<and>
   1 < decimal_value ''1.00000000000000001'' \<and>
   decimal_value ''1.00000000000000001'' < 2 \<and>
   ParseTime impl ''0.5ms'' = (0, Some ErrorSplitAtomic) \<and>
   ParseMemory impl ''0.5KB'' = (0, Some ErrorSplitAtomic)"
proof -
  have a: "1 < decimal_value ''1.00000000000000001''"
    and b: "decimal_value ''1.00000000000000001'' < 2"
    by (simp_all add: stamp_eval)
  from ParseTime_bit_ms [of impl] ParseMemory_bit_KB [of impl] a b ParseTime_05ms [of impl]
    ParseMemory_05KB [of impl]
  show ?thesis by (intro conjI)
qed

section \<open>The errors of the parsers\<close>

lemma FindStringSubmatch_parseTime_shape:
  assumes "FindStringSubmatch parseTime s \<noteq> []"
  shows "\<exists>pre n u post. s = pre @ n @ u @ post \<and> is_number n \<and> u \<in> set [''ms'', ''s''] \<and>
           FindStringSubmatch parseTime s = [n @ u, n, u]"
  using FindStringSubmatch_shape [OF unit_group_parseTime, of s] assms parseTime_shape
  by simp

lemma FindStringSubmatch_parseMemory_shape:
  assumes "FindStringSubmatch parseMemory s \<noteq> []"
  shows "\<exists>pre n u post. s = pre @ n @ u @ post \<and> is_number n \<and>
           u \<in> set [''KB'', ''MB'', ''GB''] \<and>
           FindStringSubmatch parseMemory s = [n @ u, n, u]"
  using FindStringSubmatch_shape [OF unit_group_parseMemory, of s] assms parseMemory_shape
  by simp

lemma FindStringSubmatch_parseTime_empty:
  "FindStringSubmatch parseTime s = [] \<longleftrightarrow>
   \<not> (\<exists>pre n u post. s = pre @ n @ u @ post \<and> is_number n \<and> u \<in> set [''ms'', ''s''])"
  using FindStringSubmatch_empty_iff [OF unit_group_parseTime, of s] parseTime_shape by simp

lemma FindStringSubmatch_parseMemory_empty:
  "FindStringSubmatch parseMemory s = [] \<longleftrightarrow>
   \<not> (\<exists>pre n u post. s = pre @ n @ u @ post \<and> is_number n \<and>
        u \<in> set [''KB'', ''MB'', ''GB''])"
  using FindStringSubmatch_empty_iff [OF unit_group_parseMemory, of s] parseMemory_shape
  by simp

lemma ParseTime_errors:
  "snd (ParseTime impl s) \<in> {None, Some ErrorMalformedStamp, Some ErrorSplitAtomic, Some ErrRange}"
  by (simp add: ParseTime_def ParseFloat_def Let_def split: float64.split)

lemma ParseMemory_errors:
  "snd (ParseMemory impl s) \<in> {None, Some ErrorMalformedStamp, Some ErrorSplitAtomic, Some ErrRange}"
  by (simp add: ParseMemory_def ParseFloat_def Let_def split: float64.split)

lemma ParseTime_malformed:
  "snd (ParseTime impl s) = Some ErrorMalformedStamp \<longleftrightarrow> FindStringSubmatch parseTime s = []"
proof (cases "FindStringSubmatch parseTime s = []")
  case True
  then show ?thesis by (simp add: ParseTime_def)
next
  case False
  from FindStringSubmatch_parseTime_shape [OF this] obtain n u
    where "FindStringSubmatch parseTime s = [n @ u, n, u]" by blast
  then show ?thesis
    by (simp add: ParseTime_def ParseFloat_def split: float64.split)
qed

lemma ParseMemory_malformed:
  "snd (ParseMemory impl s) = Some ErrorMalformedStamp \<longleftrightarrow>
   FindStringSubmatch parseMemory s = []"
proof (cases "FindStringSubmatch parseMemory s = []")
  case True
  then show ?thesis by (simp add: ParseMemory_def)
next
  case False
  from FindStringSubmatch_parseMemory_shape [OF this] obtain n u
    where "FindStringSubmatch parseMemory s = [n @ u, n, u]" by blast
  then show ?thesis
    by (simp add: ParseMemory_def ParseFloat_def Let_def split: float64.split)
qed

lemma ParseTime_range:
  assumes "snd (ParseTime impl s) = Some ErrRange"
  shows "\<exists>pre n u post. s = pre @ n @ u @ post \<and> is_number n \<and> u \<in> set [''ms'', ''s''] \<and>
           round64 (decimal_value n) = PosInf"
proof -
  from assms have "FindStringSubmatch parseTime s \<noteq> []" by (auto simp add: ParseTime_def)
  from FindStringSubmatch_parseTime_shape [OF this] obtain pre n u post
    where s: "s = pre @ n @ u @ post" "is_number n" "u \<in> set [''ms'', ''s'']"
      and f: "FindStringSubmatch parseTime s = [n @ u, n, u]" by blast
  from assms f have "round64 (decimal_value n) = PosInf"
    by (auto simp add: ParseTime_def ParseFloat_def split: float64.splits if_splits)
  with s show ?thesis by blast
qed

lemma ParseMemory_range:
  assumes "snd (ParseMemory impl s) = Some ErrRange"
  shows "\<exists>pre n u post. s = pre @ n @ u @ post \<and> is_number n \<and>
           u \<in> set [''KB'', ''MB'', ''GB''] \<and> round64 (decimal_value n) = PosInf"
proof -
  from assms have "FindStringSubmatch parseMemory s \<noteq> []" by (auto simp add: ParseMemory_def)
  from FindStringSubmatch_parseMemory_shape [OF this] obtain pre n u post
    where s: "s = pre @ n @ u @ post" "is_number n" "u \<in> set [''KB'', ''MB'', ''GB'']"
      and f: "FindStringSubmatch parseMemory s = [n @ u, n, u]" by blast
  from assms f have "round64 (decimal_value n) = PosInf"
    by (auto simp add: ParseMemory_def ParseFloat_def Let_def split: float64.splits if_splits)
  with s show ?thesis by blast
qed

text \<open>
  Claim C1, as the code has it. \<open>ParseTime\<close> and \<open>ParseMemory\<close> fail with
  \<open>ErrorMalformedStamp\<close>, with \<open>ErrorSplitAtomic\<close> or with the range error that
  \<^verbatim>\<open>strconv.ParseFloat\<close> reports, and with nothing else. The result is
  \<open>ErrorMalformedStamp\<close> exactly when no part of the stamp is a number followed by
  a unit. The range error is returned only when the stamp holds a number, followed by
  a unit, that rounds beyond the largest float64.
\<close>

theorem parse_error_kinds:
  "snd (ParseTime impl s) \<in>
     {None, Some ErrorMalformedStamp, Some ErrorSplitAtomic, Some ErrRange} \<and>
   snd (ParseMemory impl s) \<in>
     {None, Some ErrorMalformedStamp, Some ErrorSplitAtomic, Some ErrRange} \<and>
   (snd (ParseTime impl s) = Some ErrorMalformedStamp \<longleftrightarrow>
      \<not> (\<exists>pre n u post. s = pre @ n @ u @ post \<and> is_number n \<and> u \<in> set [''ms'', ''s''])) \<and>
   (snd (ParseMemory impl s) = Some ErrorMalformedStamp \<longleftrightarrow>
      \<not> (\<exists>pre n u post. s = pre @ n @ u @ post \<and> is_number n \<and>
           u \<in> set [''KB'', ''MB'', ''GB''])) \<and>
   (snd (ParseTime impl s) = Some ErrRange \<longrightarrow>
      (\<exists>pre n u post. s = pre @ n @ u @ post \<and> is_number n \<and> u \<in> set [''ms'', ''s''] \<and>
         round64 (decimal_value n) = PosInf)) \<and>
   (snd (ParseMemory impl s) = Some ErrRange \<longrightarrow>
      (\<exists>pre n u post. s = pre @ n @ u @ post \<and> is_number n \<and>
         u \<in> set [''KB'', ''MB'', ''GB''] \<and> round64 (decimal_value n) = PosInf))"
  using ParseTime_errors [of impl s] ParseMemory_errors [of impl s]
    ParseTime_malformed [of impl s] ParseMemory_malformed [of impl s]
    FindStringSubmatch_parseTime_empty [of s] FindStringSubmatch_parseMemory_empty [of s]
    ParseTime_range [of impl s] ParseMemory_range [of impl s]
  by blast

text \<open>A one followed by 309 zeros: \<open>10^309\<close>, beyond the largest float64.\<close>

lemma digits_val_zeros: "digits_val (d @ replicate k CHR ''0'') = digits_val d * 10 ^ k"
proof (induction k)
  case 0
  then show ?case by simp
next
  case (Suc k)
  have "d @ replicate (Suc k) CHR ''0'' = (d @ replicate k CHR ''0'') @ [CHR ''0'']"
    by (simp add: replicate_append_same)
  then show ?case using Suc by (simp only: digits_val_snoc) (simp add: digit_val_def)
qed

lemma all_digits_one_zeros: "all_digits (''1'' @ replicate k CHR ''0'')"
  by (simp add: all_digits_def is_digit_def list_all_iff)

lemma round64_power_of_ten:
  assumes "(2::rat) ^ 1024 \<le> 10 ^ k"
  shows "round64 (decimal_value (''1'' @ replicate k CHR ''0'')) = PosInf"
proof -
  have "decimal_value (''1'' @ replicate k CHR ''0'') = 10 ^ k"
    using decimal_value_digits [OF all_digits_one_zeros, of k] digits_val_zeros [of "''1''" k]
    by (simp add: digits_val_def digit_val_def)
  with assms show ?thesis by (simp only: round64_overflow)
qed

lemma ParseTime_power_of_ten:
  assumes "(2::rat) ^ 1024 \<le> 10 ^ k"
  shows "ParseTime impl (''1'' @ replicate k CHR ''0'' @ ''s'') = (0, Some ErrRange)"
  using ParseTime_stamp [of "''1'' @ replicate k CHR ''0''" "''s''" "[]" impl "[]"]
    is_number_digits [OF all_digits_one_zeros, of k] round64_power_of_ten [OF assms]
  by simp

lemma ParseMemory_power_of_ten:
  assumes "(2::rat) ^ 1024 \<le> 10 ^ k"
  shows "ParseMemory impl (''1'' @ replicate k CHR ''0'' @ ''GB'') = (0, Some ErrRange)"
  using ParseMemory_stamp [of "''1'' @ replicate k CHR ''0''" "''GB''" "[]" impl "[]"]
    is_number_digits [OF all_digits_one_zeros, of k] round64_power_of_ten [OF assms]
  by simp

lemma pow2_1024_le_pow10_309: "(2::rat) ^ 1024 \<le> 10 ^ 309"
  by simp

text \<open>
  Claim C1 as the spec words it fails at the stamp of a one, 309 zeros and \<^verbatim>\<open>s\<close>:
  the pattern matches, \<^verbatim>\<open>strconv.ParseFloat\<close> reports that the value is out of
  range, and \<open>ParseTime\<close> returns that error as it is.
\<close>

theorem parse_error_kinds_counterexample:
  "ParseTime amd64 (''1'' @ replicate 309 CHR ''0'' @ ''s'') = (0, Some ErrRange)"
  by (rule ParseTime_power_of_ten) (rule pow2_1024_le_pow10_309)

text \<open>The two implications of the theorem above, at stamps that give the range error.\<close>

theorem parse_error_kinds_witness:
  "snd (ParseTime amd64 (''1'' @ replicate 309 CHR ''0'' @ ''s'')) = Some ErrRange \<and>
   (\<exists>pre n u post. ''1'' @ replicate 309 CHR ''0'' @ ''s'' = pre @ n @ u @ post \<and> is_number n \<and>
      u \<in> set [''ms'', ''s''] \<and> round64 (decimal_value n) = PosInf) \<and>
   snd (ParseMemory amd64 (''1'' @ replicate 309 CHR ''0'' @ ''GB'')) = Some ErrRange \<and>
   (\<exists>pre n u post. ''1'' @ replicate 309 CHR ''0'' @ ''GB'' = pre @ n @ u @ post \<and> is_number n \<and>
      u \<in> set [''KB'', ''MB'', ''GB''] \<and> round64 (decimal_value n) = PosInf)"
proof -
  have t: "snd (ParseTime amd64 (''1'' @ replicate 309 CHR ''0'' @ ''s'')) = Some ErrRange"
    by (simp only: ParseTime_power_of_ten [OF pow2_1024_le_pow10_309] snd_conv)
  have m: "snd (ParseMemory amd64 (''1'' @ replicate 309 CHR ''0'' @ ''GB'')) = Some ErrRange"
    by (simp only: ParseMemory_power_of_ten [OF pow2_1024_le_pow10_309] snd_conv)
  have et: "\<exists>pre n u post. ''1'' @ replicate 309 CHR ''0'' @ ''s'' = pre @ n @ u @ post \<and>
      is_number n \<and> u \<in> set [''ms'', ''s''] \<and> round64 (decimal_value n) = PosInf"
    by (rule parse_error_kinds [THEN conjunct2, THEN conjunct2, THEN conjunct2, THEN conjunct2,
          THEN conjunct1, THEN mp, OF t])
  have em: "\<exists>pre n u post. ''1'' @ replicate 309 CHR ''0'' @ ''GB'' = pre @ n @ u @ post \<and>
      is_number n \<and> u \<in> set [''KB'', ''MB'', ''GB''] \<and> round64 (decimal_value n) = PosInf"
    by (rule parse_error_kinds [THEN conjunct2, THEN conjunct2, THEN conjunct2, THEN conjunct2,
          THEN conjunct2, THEN mp, OF m])
  from t et m em show ?thesis by (intro conjI)
qed

section \<open>Text around a stamp\<close>

lemma ParseTime_surrounded:
  assumes "is_number n" and "u \<in> set [''ms'', ''s'']" and "\<forall>c\<in>set pre. \<not> is_digit c"
  shows "ParseTime impl (pre @ n @ u @ post) = ParseTime impl (n @ u)"
  using ParseTime_stamp [OF assms, of impl post] ParseTime_stamp [OF assms(1,2), of "[]" impl "[]"]
  by simp

lemma ParseMemory_surrounded:
  assumes "is_number n" and "u \<in> set [''KB'', ''MB'', ''GB'']"
    and "\<forall>c\<in>set pre. \<not> is_digit c"
  shows "ParseMemory impl (pre @ n @ u @ post) = ParseMemory impl (n @ u)"
  using ParseMemory_stamp [OF assms, of impl post]
    ParseMemory_stamp [OF assms(1,2), of "[]" impl "[]"]
  by simp

lemma ParseTime_contains:
  assumes "is_number n" and "u \<in> set [''ms'', ''s'']"
  shows "snd (ParseTime impl (pre @ n @ u @ post)) \<noteq> Some ErrorMalformedStamp"
  using assms ParseTime_malformed [of impl "pre @ n @ u @ post"]
    FindStringSubmatch_parseTime_empty [of "pre @ n @ u @ post"]
  by blast

lemma ParseMemory_contains:
  assumes "is_number n" and "u \<in> set [''KB'', ''MB'', ''GB'']"
  shows "snd (ParseMemory impl (pre @ n @ u @ post)) \<noteq> Some ErrorMalformedStamp"
  using assms ParseMemory_malformed [of impl "pre @ n @ u @ post"]
    FindStringSubmatch_parseMemory_empty [of "pre @ n @ u @ post"]
  by blast

lemma FindStringSubmatch_leftmost:
  assumes g: "unit_group g us" and n: "is_number n" and u: "u \<in> set us"
    and least: "\<not> (\<exists>pre' n' u' post'. pre @ n @ u @ post = pre' @ n' @ u' @ post' \<and>
                  is_number n' \<and> u' \<in> set us \<and> length pre' < length pre)"
  shows "FindStringSubmatch (number, g) (pre @ n @ u @ post) = [n @ u, n, u]"
  using least
proof (induction pre)
  case Nil
  then show ?case
    using submatch_here_match [OF g n u, of post]
    by (simp add: FindStringSubmatch_here)
next
  case (Cons c pre)
  have none: "submatch_here (number, g) (c # pre @ n @ u @ post) = []"
  proof (rule ccontr)
    assume "submatch_here (number, g) (c # pre @ n @ u @ post) \<noteq> []"
    from submatch_here_sound [OF g this] obtain n' u' post'
      where "c # pre @ n @ u @ post = n' @ u' @ post'" "is_number n'" "u' \<in> set us"
      by blast
    then have "(c # pre) @ n @ u @ post = [] @ n' @ u' @ post' \<and> is_number n' \<and>
        u' \<in> set us \<and> length ([] :: string) < length (c # pre)" by simp
    with Cons.prems show False by blast
  qed
  have "\<not> (\<exists>pre' n' u' post'. pre @ n @ u @ post = pre' @ n' @ u' @ post' \<and>
           is_number n' \<and> u' \<in> set us \<and> length pre' < length pre)"
  proof
    assume "\<exists>pre' n' u' post'. pre @ n @ u @ post = pre' @ n' @ u' @ post' \<and>
           is_number n' \<and> u' \<in> set us \<and> length pre' < length pre"
    then obtain pre' n' u' post'
      where "pre @ n @ u @ post = pre' @ n' @ u' @ post'" "is_number n'" "u' \<in> set us"
        "length pre' < length pre" by blast
    then have "(c # pre) @ n @ u @ post = (c # pre') @ n' @ u' @ post' \<and> is_number n' \<and>
        u' \<in> set us \<and> length (c # pre') < length (c # pre)" by simp
    with Cons.prems show False by blast
  qed
  from Cons.IH [OF this] none show ?case by simp
qed

lemma ParseTime_leftmost:
  assumes "is_number n" and "u \<in> set [''ms'', ''s'']"
    and "\<not> (\<exists>pre' n' u' post'. pre @ n @ u @ post = pre' @ n' @ u' @ post' \<and>
            is_number n' \<and> u' \<in> set [''ms'', ''s''] \<and> length pre' < length pre)"
  shows "ParseTime impl (pre @ n @ u @ post) = ParseTime impl (n @ u)"
proof -
  have "FindStringSubmatch parseTime (pre @ n @ u @ post) = [n @ u, n, u]"
    using FindStringSubmatch_leftmost [OF unit_group_parseTime assms] parseTime_shape by simp
  moreover have "FindStringSubmatch parseTime (n @ u) = [n @ u, n, u]"
    using FindStringSubmatch_parseTime [OF assms(1,2), of "[]" "[]"] by simp
  ultimately show ?thesis by (simp add: ParseTime_def)
qed

lemma ParseMemory_leftmost:
  assumes "is_number n" and "u \<in> set [''KB'', ''MB'', ''GB'']"
    and "\<not> (\<exists>pre' n' u' post'. pre @ n @ u @ post = pre' @ n' @ u' @ post' \<and>
            is_number n' \<and> u' \<in> set [''KB'', ''MB'', ''GB''] \<and> length pre' < length pre)"
  shows "ParseMemory impl (pre @ n @ u @ post) = ParseMemory impl (n @ u)"
proof -
  have "FindStringSubmatch parseMemory (pre @ n @ u @ post) = [n @ u, n, u]"
    using FindStringSubmatch_leftmost [OF unit_group_parseMemory assms] parseMemory_shape
    by simp
  moreover have "FindStringSubmatch parseMemory (n @ u) = [n @ u, n, u]"
    using FindStringSubmatch_parseMemory [OF assms(1,2), of "[]" "[]"] by simp
  ultimately show ?thesis by (simp add: ParseMemory_def)
qed

text \<open>No stamp starts inside \<open>pre\<close>: one character at a time.\<close>

lemma no_earlier_stamp_Nil:
  "\<not> (\<exists>pre' n' u' post'. [] @ t = pre' @ n' @ u' @ post' \<and> is_number n' \<and> u' \<in> set us \<and>
         length pre' < length ([] :: string))"
  by simp

lemma no_earlier_stamp_Cons:
  assumes g: "unit_group g us"
    and none: "submatch_here (number, g) (c # pre @ t) = []"
    and rest: "\<not> (\<exists>pre' n' u' post'. pre @ t = pre' @ n' @ u' @ post' \<and> is_number n' \<and>
                 u' \<in> set us \<and> length pre' < length pre)"
  shows "\<not> (\<exists>pre' n' u' post'. (c # pre) @ t = pre' @ n' @ u' @ post' \<and> is_number n' \<and>
            u' \<in> set us \<and> length pre' < length (c # pre))"
proof
  assume "\<exists>pre' n' u' post'. (c # pre) @ t = pre' @ n' @ u' @ post' \<and> is_number n' \<and>
            u' \<in> set us \<and> length pre' < length (c # pre)"
  then obtain pre' n' u' post'
    where s: "(c # pre) @ t = pre' @ n' @ u' @ post'" and n: "is_number n'"
      and u: "u' \<in> set us" and k: "length pre' < length (c # pre)" by blast
  show False
  proof (cases pre')
    case Nil
    with s have "c # pre @ t = n' @ u' @ post'" by simp
    with none submatch_here_match [OF g n u, of post'] show False by simp
  next
    case (Cons c' p)
    with s k have "pre @ t = p @ n' @ u' @ post'" "length p < length pre" by simp_all
    with rest n u show False by blast
  qed
qed

text \<open>The facts that evaluate a match at a concrete text.\<close>

lemmas submatch_eval = submatch_here_def matches_number matches_fraction
  matches_Plus_Digit_Cons matches_Plus_Digit_Nil matches.simps(2,3,4) is_digit_def

lemma sentence_time:
  "\<not> (\<exists>pre' n' u' post'. ''v2 of '' @ ''1'' @ ''s'' @ '', then go'' = pre' @ n' @ u' @ post' \<and>
         is_number n' \<and> u' \<in> set [''ms'', ''s''] \<and> length pre' < length ''v2 of '')"
  by (intro no_earlier_stamp_Cons [OF unit_group_parseTime] no_earlier_stamp_Nil)
     (simp_all add: parseTime_def submatch_eval)

lemma sentence_memory:
  "\<not> (\<exists>pre' n' u' post'. ''argon2 '' @ ''64'' @ ''MB'' @ '' of memory'' = pre' @ n' @ u' @ post' \<and>
         is_number n' \<and> u' \<in> set [''KB'', ''MB'', ''GB''] \<and> length pre' < length ''argon2 '')"
  by (intro no_earlier_stamp_Cons [OF unit_group_parseMemory] no_earlier_stamp_Nil)
     (simp_all add: parseMemory_def submatch_eval)

text \<open>
  Claim C10, as the code has it. The patterns are not anchored: on every input that
  holds a number followed by a unit, the parsers work on the leftmost such part,
  the one before which no other starts, and return what they return on that part
  alone, whatever stands before and after it; so such an input is never reported as
  malformed. Text that holds no digit is one case of text in which no stamp starts.
  With \<^verbatim>\<open>1s\<close> as the leftmost part the result is 1000.
\<close>

theorem stamp_unanchored:
  "(is_number n \<and> u \<in> set [''ms'', ''s''] \<and>
    \<not> (\<exists>pre' n' u' post'. pre @ n @ u @ post = pre' @ n' @ u' @ post' \<and> is_number n' \<and>
          u' \<in> set [''ms'', ''s''] \<and> length pre' < length pre) \<longrightarrow>
      ParseTime impl (pre @ n @ u @ post) = ParseTime impl (n @ u)) \<and>
   (is_number n \<and> v \<in> set [''KB'', ''MB'', ''GB''] \<and>
    \<not> (\<exists>pre' n' u' post'. pre @ n @ v @ post = pre' @ n' @ u' @ post' \<and> is_number n' \<and>
          u' \<in> set [''KB'', ''MB'', ''GB''] \<and> length pre' < length pre) \<longrightarrow>
      ParseMemory impl (pre @ n @ v @ post) = ParseMemory impl (n @ v)) \<and>
   (is_number n \<and> u \<in> set [''ms'', ''s''] \<and> (\<forall>c\<in>set pre. \<not> is_digit c) \<longrightarrow>
      ParseTime impl (pre @ n @ u @ post) = ParseTime impl (n @ u)) \<and>
   (is_number n \<and> v \<in> set [''KB'', ''MB'', ''GB''] \<and> (\<forall>c\<in>set pre. \<not> is_digit c) \<longrightarrow>
      ParseMemory impl (pre @ n @ v @ post) = ParseMemory impl (n @ v)) \<and>
   (is_number n \<and> u \<in> set [''ms'', ''s''] \<longrightarrow>
      snd (ParseTime impl (any @ n @ u @ post)) \<noteq> Some ErrorMalformedStamp) \<and>
   (is_number n \<and> v \<in> set [''KB'', ''MB'', ''GB''] \<longrightarrow>
      snd (ParseMemory impl (any @ n @ v @ post)) \<noteq> Some ErrorMalformedStamp) \<and>
   (\<not> (\<exists>pre' n' u' post'. pre @ ''1'' @ ''s'' @ post = pre' @ n' @ u' @ post' \<and> is_number n' \<and>
          u' \<in> set [''ms'', ''s''] \<and> length pre' < length pre) \<longrightarrow>
      ParseTime impl (pre @ ''1s'' @ post) = (1000, None))"
proof (intro conjI impI)
  assume "is_number n \<and> u \<in> set [''ms'', ''s''] \<and>
    \<not> (\<exists>pre' n' u' post'. pre @ n @ u @ post = pre' @ n' @ u' @ post' \<and> is_number n' \<and>
          u' \<in> set [''ms'', ''s''] \<and> length pre' < length pre)"
  then show "ParseTime impl (pre @ n @ u @ post) = ParseTime impl (n @ u)"
    using ParseTime_leftmost [of n u pre post impl] by blast
next
  assume "is_number n \<and> v \<in> set [''KB'', ''MB'', ''GB''] \<and>
    \<not> (\<exists>pre' n' u' post'. pre @ n @ v @ post = pre' @ n' @ u' @ post' \<and> is_number n' \<and>
          u' \<in> set [''KB'', ''MB'', ''GB''] \<and> length pre' < length pre)"
  then show "ParseMemory impl (pre @ n @ v @ post) = ParseMemory impl (n @ v)"
    using ParseMemory_leftmost [of n v pre post impl] by blast
next
  assume "is_number n \<and> u \<in> set [''ms'', ''s''] \<and> (\<forall>c\<in>set pre. \<not> is_digit c)"
  then show "ParseTime impl (pre @ n @ u @ post) = ParseTime impl (n @ u)"
    using ParseTime_surrounded [of n u pre impl post] by blast
next
  assume "is_number n \<and> v \<in> set [''KB'', ''MB'', ''GB''] \<and> (\<forall>c\<in>set pre. \<not> is_digit c)"
  then show "ParseMemory impl (pre @ n @ v @ post) = ParseMemory impl (n @ v)"
    using ParseMemory_surrounded [of n v pre impl post] by blast
next
  assume "is_number n \<and> u \<in> set [''ms'', ''s'']"
  then show "snd (ParseTime impl (any @ n @ u @ post)) \<noteq> Some ErrorMalformedStamp"
    using ParseTime_contains [of n u impl any post] by blast
next
  assume "is_number n \<and> v \<in> set [''KB'', ''MB'', ''GB'']"
  then show "snd (ParseMemory impl (any @ n @ v @ post)) \<noteq> Some ErrorMalformedStamp"
    using ParseMemory_contains [of n v impl any post] by blast
next
  assume a: "\<not> (\<exists>pre' n' u' post'. pre @ ''1'' @ ''s'' @ post = pre' @ n' @ u' @ post' \<and>
      is_number n' \<and> u' \<in> set [''ms'', ''s''] \<and> length pre' < length pre)"
  have "is_number ''1''" by (simp add: stamp_eval)
  from ParseTime_leftmost [OF this _ a, of impl]
  have "ParseTime impl (pre @ ''1'' @ ''s'' @ post) = ParseTime impl (''1'' @ ''s'')" by simp
  then show "ParseTime impl (pre @ ''1s'' @ post) = (1000, None)"
    using ParseTime_1s [of impl] by simp
qed

text \<open>
  The hypotheses of the theorem above hold for \<^verbatim>\<open>1s\<close> and \<^verbatim>\<open>64MB\<close> inside a
  sentence, also when a digit that starts no stamp stands before them.
\<close>

theorem stamp_unanchored_witness:
  "is_number ''1'' \<and> ''s'' \<in> set [''ms'', ''s''] \<and>
   \<not> (\<exists>pre' n' u' post'. ''v2 of '' @ ''1'' @ ''s'' @ '', then go'' = pre' @ n' @ u' @ post' \<and>
         is_number n' \<and> u' \<in> set [''ms'', ''s''] \<and> length pre' < length ''v2 of '') \<and>
   ParseTime amd64 ''v2 of 1s, then go'' = (1000, None) \<and>
   is_number ''64'' \<and> ''MB'' \<in> set [''KB'', ''MB'', ''GB''] \<and>
   \<not> (\<exists>pre' n' u' post'. ''argon2 '' @ ''64'' @ ''MB'' @ '' of memory'' = pre' @ n' @ u' @ post' \<and>
         is_number n' \<and> u' \<in> set [''KB'', ''MB'', ''GB''] \<and> length pre' < length ''argon2 '') \<and>
   ParseMemory amd64 ''argon2 64MB of memory'' = (65536, None) \<and>
   list_all (\<lambda>c. \<not> is_digit c) ''wait '' \<and>
   ParseTime amd64 ''wait 1s'' = (1000, None) \<and>
   ParseMemory amd64 ''wait 64MB'' = (65536, None)"
proof -
  have n1: "is_number ''1''" and n64: "is_number ''64''" by (simp_all add: stamp_eval)
  have u: "''s'' \<in> set [''ms'', ''s'']" and v: "''MB'' \<in> set [''KB'', ''MB'', ''GB'']"
    by simp_all
  have p: "\<forall>c\<in>set ''wait ''. \<not> is_digit c" by (simp add: is_digit_def)
  have p': "list_all (\<lambda>c. \<not> is_digit c) ''wait ''" by (simp add: is_digit_def)
  have m: "ParseMemory amd64 (''64'' @ ''MB'') = (65536, None)"
    using ParseMemory_MB_int [of "''64''" amd64] by (simp add: stamp_eval)
  have t: "ParseTime amd64 (''1'' @ ''s'') = (1000, None)"
    using ParseTime_1s [of amd64] by simp
  note th1 = stamp_unanchored [of "''1''" "''s''" "''v2 of ''" "'', then go''" amd64 "''MB''"]
  note th2 = stamp_unanchored [of "''64''" "''s''" "''argon2 ''" "'' of memory''" amd64 "''MB''"]
  note th3 = stamp_unanchored [of "''1''" "''s''" "''wait ''" "[]" amd64 "''MB''"]
  note th4 = stamp_unanchored [of "''64''" "''s''" "''wait ''" "[]" amd64 "''MB''"]
  from th1 n1 u sentence_time
  have "ParseTime amd64 (''v2 of '' @ ''1'' @ ''s'' @ '', then go'') =
      ParseTime amd64 (''1'' @ ''s'')" by blast
  with t have 1: "ParseTime amd64 ''v2 of 1s, then go'' = (1000, None)" by simp
  from th2 n64 v sentence_memory
  have "ParseMemory amd64 (''argon2 '' @ ''64'' @ ''MB'' @ '' of memory'') =
      ParseMemory amd64 (''64'' @ ''MB'')" by blast
  with m have 2: "ParseMemory amd64 ''argon2 64MB of memory'' = (65536, None)" by simp
  from th3 n1 u p
  have "ParseTime amd64 (''wait '' @ ''1'' @ ''s'' @ []) = ParseTime amd64 (''1'' @ ''s'')"
    by blast
  with t have 3: "ParseTime amd64 ''wait 1s'' = (1000, None)" by simp
  from th4 n64 v p
  have "ParseMemory amd64 (''wait '' @ ''64'' @ ''MB'' @ []) = ParseMemory amd64 (''64'' @ ''MB'')"
    by blast
  with m have 4: "ParseMemory amd64 ''wait 64MB'' = (65536, None)" by simp
  from n1 u sentence_time 1 n64 v sentence_memory 2 p' 3 4 show ?thesis by (intro conjI)
qed

lemma ParseTime_21s: "ParseTime amd64 ''21s'' = (21000, None)"
  using ParseTime_s_int [of "''21''" amd64] by (simp add: stamp_eval)

lemma ParseTime_x05ms: "ParseTime amd64 ''x0.5ms'' = (0, Some ErrorSplitAtomic)"
  using ParseTime_surrounded [of "''0.5''" "''ms''" "''x''" amd64 "[]"] ParseTime_05ms [of amd64]
  by (simp add: stamp_eval)

text \<open>
  Claim C10 as it is worded fails twice. A digit before \<^verbatim>\<open>1s\<close> is part of the
  leftmost match: \<^verbatim>\<open>21s\<close> gives 21000, not 1000. And an input that holds a match
  need not succeed: \<^verbatim>\<open>x0.5ms\<close> holds \<^verbatim>\<open>0.5ms\<close> and fails with
  \<open>ErrorSplitAtomic\<close>.
\<close>

theorem stamp_unanchored_counterexample:
  "ParseTime amd64 ''21s'' = (21000, None) \<and>
   ParseTime amd64 ''x0.5ms'' = (0, Some ErrorSplitAtomic)"
  using ParseTime_21s ParseTime_x05ms by (intro conjI)

section \<open>Failing calls of the orchestrator\<close>

lemma word_of_int_mod32: "(word_of_int (k mod 2 ^ 32) :: u32) = word_of_int k"
  by (simp add: word_of_int_eq_iff take_bit_eq_mod)

lemma word_of_int_mod8: "(word_of_int (k mod 2 ^ 8) :: u8) = word_of_int k"
  by (simp add: word_of_int_eq_iff take_bit_eq_mod)

lemma uint_word_of_int32: "uint (word_of_int k :: u32) = k mod 2 ^ 32"
  by (simp add: uint_word_of_int)

lemma uint_word_of_int8: "uint (word_of_int k :: u8) = k mod 2 ^ 8"
  by (simp add: uint_word_of_int)

lemma generateHash_failure:
  "snd (genpw (entropy run) password params) = Some e \<Longrightarrow>
   generateHash genpw run params password = (ResultSet_zero, Some e)"
  by (cases "genpw (entropy run) password params") (simp add: generateHash_def)

lemma generateHash_zero:
  "snd (generateHash genpw run params password) \<noteq> None \<Longrightarrow>
   fst (generateHash genpw run params password) = ResultSet_zero"
  by (cases "genpw (entropy run) password params")
     (auto simp add: generateHash_def split: if_splits)

lemma GenerateHash_unfold:
  "newp (entropy run) (word_of_int seconds) (word_of_int memory) (word_of_int threads)
     (word_of_int len) = (params, err) \<Longrightarrow>
   GenerateHash newp genpw run seconds threads memory len key =
     (if err \<noteq> None then (ResultSet_zero, err) else generateHash genpw run params key)"
  by (simp add: GenerateHash_def)

lemma GenerateHashWithSalt_unfold:
  "newp (entropy run) (word_of_int seconds) (word_of_int memory) (word_of_int threads)
     (word_of_int len) = (params, err) \<Longrightarrow>
   GenerateHashWithSalt newp genpw run seconds threads memory len key salt =
     (if err \<noteq> None then (ResultSet_zero, err)
      else generateHash genpw run (params\<lparr>Parameters.Salt := salt\<rparr>) key)"
  by (simp add: GenerateHashWithSalt_def Let_def)


lemma GenerateHash_zero:
  "snd (GenerateHash newp genpw run seconds threads memory len key) \<noteq> None \<Longrightarrow>
   fst (GenerateHash newp genpw run seconds threads memory len key) = ResultSet_zero"
  by (cases "newp (entropy run) (word_of_int seconds) (word_of_int memory)
        (word_of_int threads) (word_of_int len)")
     (auto simp add: GenerateHash_unfold generateHash_zero)

lemma GenerateHashWithSalt_zero:
  "snd (GenerateHashWithSalt newp genpw run seconds threads memory len key salt) \<noteq> None \<Longrightarrow>
   fst (GenerateHashWithSalt newp genpw run seconds threads memory len key salt) = ResultSet_zero"
  by (cases "newp (entropy run) (word_of_int seconds) (word_of_int memory)
        (word_of_int threads) (word_of_int len)")
     (auto simp add: GenerateHashWithSalt_unfold generateHash_zero)

lemma constructor_failure:
  assumes "snd (newp (entropy run) (word_of_int seconds) (word_of_int memory)
             (word_of_int threads) (word_of_int len)) = Some e"
  shows "GenerateHash newp genpw run seconds threads memory len key = (ResultSet_zero, Some e)"
    and "GenerateHashWithSalt newp genpw run seconds threads memory len key salt =
           (ResultSet_zero, Some e)"
  using assms
  by (cases "newp (entropy run) (word_of_int seconds) (word_of_int memory)
        (word_of_int threads) (word_of_int len)";
      simp add: GenerateHash_unfold GenerateHashWithSalt_unfold)+

lemma hashing_failure:
  assumes "newp (entropy run) (word_of_int seconds) (word_of_int memory)
             (word_of_int threads) (word_of_int len) = (params, None)"
  shows "snd (genpw (entropy run) key params) = Some e \<Longrightarrow>
           GenerateHash newp genpw run seconds threads memory len key = (ResultSet_zero, Some e)"
    and "snd (genpw (entropy run) key (params\<lparr>Parameters.Salt := salt\<rparr>)) = Some e \<Longrightarrow>
           GenerateHashWithSalt newp genpw run seconds threads memory len key salt =
             (ResultSet_zero, Some e)"
  using assms
  by (simp_all add: GenerateHash_def GenerateHashWithSalt_def Let_def generateHash_failure)

text \<open>
  Claim C9. A call of \<open>GenerateHash\<close> or \<open>GenerateHashWithSalt\<close> that returns an
  error returns the zero \<open>ResultSet\<close> with it. An error of the constructor ends the
  call with that error, and so does an error of the one hashing call that follows a
  successful constructor: nothing is tried again and no error is dropped.
\<close>

theorem failure_returns_zero:
  "(snd (GenerateHash newp genpw run seconds threads memory len key) \<noteq> None \<longrightarrow>
      fst (GenerateHash newp genpw run seconds threads memory len key) = ResultSet_zero) \<and>
   (snd (GenerateHashWithSalt newp genpw run seconds threads memory len key salt) \<noteq> None \<longrightarrow>
      fst (GenerateHashWithSalt newp genpw run seconds threads memory len key salt) =
        ResultSet_zero) \<and>
   (snd (newp (entropy run) (word_of_int seconds) (word_of_int memory) (word_of_int threads)
           (word_of_int len)) = Some e \<longrightarrow>
      GenerateHash newp genpw run seconds threads memory len key = (ResultSet_zero, Some e) \<and>
      GenerateHashWithSalt newp genpw run seconds threads memory len key salt =
        (ResultSet_zero, Some e)) \<and>
   (newp (entropy run) (word_of_int seconds) (word_of_int memory) (word_of_int threads)
      (word_of_int len) = (params, None) \<and>
    snd (genpw (entropy run) key params) = Some e \<longrightarrow>
      GenerateHash newp genpw run seconds threads memory len key = (ResultSet_zero, Some e)) \<and>
   (newp (entropy run) (word_of_int seconds) (word_of_int memory) (word_of_int threads)
      (word_of_int len) = (params, None) \<and>
    snd (genpw (entropy run) key (params\<lparr>Parameters.Salt := salt\<rparr>)) = Some e \<longrightarrow>
      GenerateHashWithSalt newp genpw run seconds threads memory len key salt =
        (ResultSet_zero, Some e))"
proof (intro conjI impI)
  assume "snd (GenerateHash newp genpw run seconds threads memory len key) \<noteq> None"
  then show "fst (GenerateHash newp genpw run seconds threads memory len key) = ResultSet_zero"
    by (rule GenerateHash_zero)
next
  assume "snd (GenerateHashWithSalt newp genpw run seconds threads memory len key salt) \<noteq> None"
  then show "fst (GenerateHashWithSalt newp genpw run seconds threads memory len key salt) =
      ResultSet_zero"
    by (rule GenerateHashWithSalt_zero)
next
  assume "snd (newp (entropy run) (word_of_int seconds) (word_of_int memory)
      (word_of_int threads) (word_of_int len)) = Some e"
  then show "GenerateHash newp genpw run seconds threads memory len key =
      (ResultSet_zero, Some e)"
    by (rule constructor_failure(1))
next
  assume "snd (newp (entropy run) (word_of_int seconds) (word_of_int memory)
      (word_of_int threads) (word_of_int len)) = Some e"
  then show "GenerateHashWithSalt newp genpw run seconds threads memory len key salt =
      (ResultSet_zero, Some e)"
    by (rule constructor_failure(2))
next
  assume "newp (entropy run) (word_of_int seconds) (word_of_int memory) (word_of_int threads)
      (word_of_int len) = (params, None) \<and> snd (genpw (entropy run) key params) = Some e"
  then show "GenerateHash newp genpw run seconds threads memory len key =
      (ResultSet_zero, Some e)"
    using hashing_failure(1) by blast
next
  assume "newp (entropy run) (word_of_int seconds) (word_of_int memory) (word_of_int threads)
      (word_of_int len) = (params, None) \<and>
    snd (genpw (entropy run) key (params\<lparr>Parameters.Salt := salt\<rparr>)) = Some e"
  then show "GenerateHashWithSalt newp genpw run seconds threads memory len key salt =
      (ResultSet_zero, Some e)"
    using hashing_failure(2) by blast
qed

text \<open>
  The hypotheses of the theorem above hold for a time of 0, which the stand-in
  constructor rejects, and for a hashing function that always fails.
\<close>

theorem failure_returns_zero_witness:
  "snd (GenerateHash sample_NewParameters sample_GenerateFromPassword sample_run
          0 1 65536 8 ''mypassword'') \<noteq> None \<and>
   GenerateHash sample_NewParameters sample_GenerateFromPassword sample_run
     0 1 65536 8 ''mypassword'' = (ResultSet_zero, Some (Argon2idError ''invalid parameters'')) \<and>
   snd (GenerateHashWithSalt sample_NewParameters sample_GenerateFromPassword sample_run
          0 1 65536 8 ''mypassword'' ''mysalt'') \<noteq> None \<and>
   GenerateHashWithSalt sample_NewParameters sample_GenerateFromPassword sample_run
     0 1 65536 8 ''mypassword'' ''mysalt'' =
       (ResultSet_zero, Some (Argon2idError ''invalid parameters'')) \<and>
   snd ((\<lambda>w pw ps. ([], Some (Argon2idError ''out of memory'')))
          (entropy sample_run) ''mypassword''
          (fst (sample_NewParameters (entropy sample_run) 1 65536 1 8))) =
     Some (Argon2idError ''out of memory'') \<and>
   GenerateHash sample_NewParameters (\<lambda>w pw ps. ([], Some (Argon2idError ''out of memory'')))
     sample_run 1 1 65536 8 ''mypassword'' =
       (ResultSet_zero, Some (Argon2idError ''out of memory'')) \<and>
   GenerateHashWithSalt sample_NewParameters
     (\<lambda>w pw ps. ([], Some (Argon2idError ''out of memory'')))
     sample_run 1 1 65536 8 ''mypassword'' ''mysalt'' =
       (ResultSet_zero, Some (Argon2idError ''out of memory''))"
  using failure_returns_zero [of sample_NewParameters sample_GenerateFromPassword sample_run
      0 1 65536 8 "''mypassword''" "''mysalt''" "Argon2idError ''invalid parameters''"]
    failure_returns_zero [of sample_NewParameters
      "\<lambda>w pw ps. ([], Some (Argon2idError ''out of memory''))" sample_run
      1 1 65536 8 "''mypassword''" "''mysalt''" "Argon2idError ''out of memory''"
      "fst (sample_NewParameters (entropy sample_run) 1 65536 1 8)"]
  by (simp add: sample_NewParameters_def)

section \<open>Parameters out of range\<close>

lemma GenerateHash_wraps:
  "GenerateHash newp genpw run seconds threads memory len key =
   GenerateHash newp genpw run (seconds mod 2 ^ 32) (threads mod 2 ^ 8) (memory mod 2 ^ 32)
     (len mod 2 ^ 32) key"
  by (simp only: GenerateHash_def word_of_int_mod32 word_of_int_mod8)

lemma GenerateHashWithSalt_wraps:
  "GenerateHashWithSalt newp genpw run seconds threads memory len key salt =
   GenerateHashWithSalt newp genpw run (seconds mod 2 ^ 32) (threads mod 2 ^ 8)
     (memory mod 2 ^ 32) (len mod 2 ^ 32) key salt"
  by (simp only: GenerateHashWithSalt_def word_of_int_mod32 word_of_int_mod8)

text \<open>
  Claim C2, as the code has it. The orchestrator checks no range itself. It converts
  the four numbers to \<^verbatim>\<open>uint32\<close> and \<^verbatim>\<open>uint8\<close>, which keeps their low 32 and 8
  bits, so a call behaves exactly as the call with the numbers reduced modulo \<open>2^32\<close>
  (modulo \<open>2^8\<close> for the threads). The only validation is the constructor's, on the
  reduced numbers: when it returns an error the call fails with that error, and when
  it returns none the hashing goes ahead with the parameters it built.
\<close>

theorem out_of_range_parameters:
  "GenerateHash newp genpw run seconds threads memory len key =
     GenerateHash newp genpw run (seconds mod 2 ^ 32) (threads mod 2 ^ 8) (memory mod 2 ^ 32)
       (len mod 2 ^ 32) key \<and>
   GenerateHashWithSalt newp genpw run seconds threads memory len key salt =
     GenerateHashWithSalt newp genpw run (seconds mod 2 ^ 32) (threads mod 2 ^ 8)
       (memory mod 2 ^ 32) (len mod 2 ^ 32) key salt \<and>
   (snd (newp (entropy run) (word_of_int seconds) (word_of_int memory) (word_of_int threads)
           (word_of_int len)) = Some e \<longrightarrow>
      GenerateHash newp genpw run seconds threads memory len key = (ResultSet_zero, Some e) \<and>
      GenerateHashWithSalt newp genpw run seconds threads memory len key salt =
        (ResultSet_zero, Some e)) \<and>
   (snd (newp (entropy run) (word_of_int seconds) (word_of_int memory) (word_of_int threads)
           (word_of_int len)) = None \<longrightarrow>
      GenerateHash newp genpw run seconds threads memory len key =
        generateHash genpw run
          (fst (newp (entropy run) (word_of_int seconds) (word_of_int memory)
                  (word_of_int threads) (word_of_int len))) key \<and>
      GenerateHashWithSalt newp genpw run seconds threads memory len key salt =
        generateHash genpw run
          ((fst (newp (entropy run) (word_of_int seconds) (word_of_int memory)
                   (word_of_int threads) (word_of_int len)))\<lparr>Parameters.Salt := salt\<rparr>) key)"
proof (intro conjI impI)
  show "GenerateHash newp genpw run seconds threads memory len key =
     GenerateHash newp genpw run (seconds mod 2 ^ 32) (threads mod 2 ^ 8) (memory mod 2 ^ 32)
       (len mod 2 ^ 32) key"
    by (rule GenerateHash_wraps)
next
  show "GenerateHashWithSalt newp genpw run seconds threads memory len key salt =
     GenerateHashWithSalt newp genpw run (seconds mod 2 ^ 32) (threads mod 2 ^ 8)
       (memory mod 2 ^ 32) (len mod 2 ^ 32) key salt"
    by (rule GenerateHashWithSalt_wraps)
next
  assume "snd (newp (entropy run) (word_of_int seconds) (word_of_int memory)
      (word_of_int threads) (word_of_int len)) = Some e"
  then show "GenerateHash newp genpw run seconds threads memory len key =
      (ResultSet_zero, Some e)"
    by (rule constructor_failure(1))
next
  assume "snd (newp (entropy run) (word_of_int seconds) (word_of_int memory)
      (word_of_int threads) (word_of_int len)) = Some e"
  then show "GenerateHashWithSalt newp genpw run seconds threads memory len key salt =
      (ResultSet_zero, Some e)"
    by (rule constructor_failure(2))
next
  assume "snd (newp (entropy run) (word_of_int seconds) (word_of_int memory)
      (word_of_int threads) (word_of_int len)) = None"
  then show "GenerateHash newp genpw run seconds threads memory len key =
        generateHash genpw run
          (fst (newp (entropy run) (word_of_int seconds) (word_of_int memory)
                  (word_of_int threads) (word_of_int len))) key"
    by (simp add: GenerateHash_def split_beta)
next
  assume "snd (newp (entropy run) (word_of_int seconds) (word_of_int memory)
      (word_of_int threads) (word_of_int len)) = None"
  then show "GenerateHashWithSalt newp genpw run seconds threads memory len key salt =
        generateHash genpw run
          ((fst (newp (entropy run) (word_of_int seconds) (word_of_int memory)
                   (word_of_int threads) (word_of_int len)))\<lparr>Parameters.Salt := salt\<rparr>) key"
    by (simp add: GenerateHashWithSalt_def split_beta Let_def)
qed

text \<open>The definitions that evaluate a call with the stand-in package.\<close>

lemmas sample_eval = sample_NewParameters_def sample_GenerateFromPassword_def sample_run_def
  GenerateHash_def GenerateHashWithSalt_def generateHash_def Let_def

text \<open>
  Claim C2 as the spec words it fails at 257 threads: 257 does not fit 8 bits, the
  conversion makes it 1, the constructor sees the same arguments as in the
  repository's own test and the call succeeds, reporting 1 thread.
\<close>

theorem out_of_range_parameters_counterexample:
  "GenerateHashWithSalt sample_NewParameters sample_GenerateFromPassword sample_run
     1 257 65536 8 ''mypassword'' ''mysalt'' =
   (\<lparr>Time = 1, Threads = 1, Memory = 65536, Length = 8, Key = ''mypassword'',
     Hash = ''$argon2id$mysalt$mypassword'', Characters = 27, Duration = 50000,
     Salt = ''mysalt''\<rparr>, None)"
  by (simp add: sample_eval)

text \<open>
  The hypotheses of the theorem above: a time of \<open>2^32\<close> reaches the
  constructor as 0 and is rejected; 257 threads reach it as 1 and are accepted.
\<close>

theorem out_of_range_parameters_witness:
  "snd (sample_NewParameters (entropy sample_run) (word_of_int 4294967296) (word_of_int 65536)
          (word_of_int 1) (word_of_int 8)) = Some (Argon2idError ''invalid parameters'') \<and>
   GenerateHash sample_NewParameters sample_GenerateFromPassword sample_run
     4294967296 1 65536 8 ''mypassword'' =
       (ResultSet_zero, Some (Argon2idError ''invalid parameters'')) \<and>
   snd (sample_NewParameters (entropy sample_run) (word_of_int 1) (word_of_int 65536)
          (word_of_int 257) (word_of_int 8)) = None \<and>
   GenerateHashWithSalt sample_NewParameters sample_GenerateFromPassword sample_run
     1 257 65536 8 ''mypassword'' ''mysalt'' =
   generateHash sample_GenerateFromPassword sample_run
     \<lparr>Parameters.Time = 1, Memory = 65536, Threads = 1, Length = 8, Salt = ''mysalt''\<rparr>
     ''mypassword''"
  using out_of_range_parameters [of sample_NewParameters sample_GenerateFromPassword sample_run
      4294967296 1 65536 8 "''mypassword''" "''mysalt''" "Argon2idError ''invalid parameters''"]
    out_of_range_parameters [of sample_NewParameters sample_GenerateFromPassword sample_run
      1 257 65536 8 "''mypassword''" "''mysalt''" "Argon2idError ''invalid parameters''"]
  by (simp add: sample_eval ResultSet_zero_def)

section \<open>The fields of the result\<close>

lemma generateHash_fields:
  assumes "generateHash genpw run params password = (rs, None)"
  shows "Characters rs = int (length (Hash rs))"
    and "Key rs = password"
    and "Duration rs = clock_stop run - clock_start run"
    and "Time rs = uint (Parameters.Time params)"
    and "Threads rs = uint (Parameters.Threads params)"
    and "Memory rs = uint (Parameters.Memory params)"
    and "Length rs = uint (Parameters.Length params)"
    and "Salt rs = Parameters.Salt params"
  using assms
  by (cases "genpw (entropy run) password params"; auto simp add: generateHash_def
        split: if_splits)+

lemma GenerateHash_success:
  assumes "GenerateHash newp genpw run seconds threads memory len key = (rs, None)"
  shows "generateHash genpw run
           (fst (newp (entropy run) (word_of_int seconds) (word_of_int memory)
                   (word_of_int threads) (word_of_int len))) key = (rs, None)"
  using assms
  by (cases "newp (entropy run) (word_of_int seconds) (word_of_int memory)
        (word_of_int threads) (word_of_int len)")
     (auto simp add: GenerateHash_def split: if_splits)

lemma GenerateHashWithSalt_success:
  assumes "GenerateHashWithSalt newp genpw run seconds threads memory len key salt = (rs, None)"
  shows "generateHash genpw run
           ((fst (newp (entropy run) (word_of_int seconds) (word_of_int memory)
                    (word_of_int threads) (word_of_int len)))\<lparr>Parameters.Salt := salt\<rparr>) key =
         (rs, None)"
  using assms
  by (cases "newp (entropy run) (word_of_int seconds) (word_of_int memory)
        (word_of_int threads) (word_of_int len)")
     (auto simp add: GenerateHashWithSalt_def Let_def split: if_splits)

lemma result_fields_aux:
  assumes g: "generateHash genpw run params key = (rs, None)"
    and st: "Parameters.Time params = word_of_int seconds \<and>
             Parameters.Memory params = word_of_int memory \<and>
             Parameters.Threads params = word_of_int threads \<and>
             Parameters.Length params = word_of_int len"
  shows "Characters rs = int (length (Hash rs)) \<and> Key rs = key \<and>
         Duration rs = clock_stop run - clock_start run \<and>
         Time rs = seconds mod 2 ^ 32 \<and> Threads rs = threads mod 2 ^ 8 \<and>
         Memory rs = memory mod 2 ^ 32 \<and> Length rs = len mod 2 ^ 32"
  using generateHash_fields [OF g] st
  by (simp add: uint_word_of_int32 uint_word_of_int8)


lemma keeps_arguments_fst:
  assumes "keeps_arguments newp" and "snd (newp w t m p l) = None"
  shows "Parameters.Time (fst (newp w t m p l)) = t \<and>
         Parameters.Memory (fst (newp w t m p l)) = m \<and>
         Parameters.Threads (fst (newp w t m p l)) = p \<and>
         Parameters.Length (fst (newp w t m p l)) = l"
  using assms unfolding keeps_arguments_def
  by (cases "newp w t m p l") auto

lemma GenerateHash_no_error:
  assumes "GenerateHash newp genpw run seconds threads memory len key = (rs, None)"
  shows "snd (newp (entropy run) (word_of_int seconds) (word_of_int memory)
                (word_of_int threads) (word_of_int len)) = None"
  using assms
  by (cases "newp (entropy run) (word_of_int seconds) (word_of_int memory)
        (word_of_int threads) (word_of_int len)")
     (auto simp add: GenerateHash_def split: if_splits)

lemma GenerateHashWithSalt_no_error:
  assumes "GenerateHashWithSalt newp genpw run seconds threads memory len key salt = (rs, None)"
  shows "snd (newp (entropy run) (word_of_int seconds) (word_of_int memory)
                (word_of_int threads) (word_of_int len)) = None"
  using assms
  by (cases "newp (entropy run) (word_of_int seconds) (word_of_int memory)
        (word_of_int threads) (word_of_int len)")
     (auto simp add: GenerateHashWithSalt_def Let_def split: if_splits)

lemma GenerateHash_fields:
  assumes ok: "GenerateHash newp genpw run seconds threads memory len key = (rs, None)"
  shows "Characters rs = int (length (Hash rs)) \<and> Key rs = key \<and>
         Duration rs = clock_stop run - clock_start run"
    and "keeps_arguments newp \<Longrightarrow>
         Time rs = seconds mod 2 ^ 32 \<and> Threads rs = threads mod 2 ^ 8 \<and>
         Memory rs = memory mod 2 ^ 32 \<and> Length rs = len mod 2 ^ 32"
proof -
  note g = GenerateHash_success [OF ok]
  show "Characters rs = int (length (Hash rs)) \<and> Key rs = key \<and>
      Duration rs = clock_stop run - clock_start run"
    using generateHash_fields(1-3) [OF g] by simp
  assume "keeps_arguments newp"
  from keeps_arguments_fst [OF this GenerateHash_no_error [OF ok]]
  show "Time rs = seconds mod 2 ^ 32 \<and> Threads rs = threads mod 2 ^ 8 \<and>
      Memory rs = memory mod 2 ^ 32 \<and> Length rs = len mod 2 ^ 32"
    using result_fields_aux [OF g] by simp
qed

lemma GenerateHashWithSalt_fields:
  assumes ok: "GenerateHashWithSalt newp genpw run seconds threads memory len key salt =
                 (rs, None)"
  shows "Characters rs = int (length (Hash rs)) \<and> Key rs = key \<and>
         Duration rs = clock_stop run - clock_start run \<and> Salt rs = salt"
    and "keeps_arguments newp \<Longrightarrow>
         Time rs = seconds mod 2 ^ 32 \<and> Threads rs = threads mod 2 ^ 8 \<and>
         Memory rs = memory mod 2 ^ 32 \<and> Length rs = len mod 2 ^ 32"
proof -
  note g = GenerateHashWithSalt_success [OF ok]
  show "Characters rs = int (length (Hash rs)) \<and> Key rs = key \<and>
      Duration rs = clock_stop run - clock_start run \<and> Salt rs = salt"
    using generateHash_fields(1-3,8) [OF g] by simp
  assume "keeps_arguments newp"
  from keeps_arguments_fst [OF this GenerateHashWithSalt_no_error [OF ok]]
  show "Time rs = seconds mod 2 ^ 32 \<and> Threads rs = threads mod 2 ^ 8 \<and>
      Memory rs = memory mod 2 ^ 32 \<and> Length rs = len mod 2 ^ 32"
    using result_fields_aux [OF g] by simp
qed

text \<open>
  Claim C6, as the code has it. On success of either function the result has
  \<open>Characters\<close> equal to the length of \<open>Hash\<close>, \<open>Key\<close> equal to the key, and
  \<open>Duration\<close> equal to the difference of the two clock readings, which is not
  negative when the second reading is not before the first. When the constructor
  keeps its arguments, \<open>Time\<close>, \<open>Memory\<close> and \<open>Length\<close> are the inputs reduced modulo
  \<open>2^32\<close> and \<open>Threads\<close> is the input reduced modulo \<open>2^8\<close>: the inputs themselves
  when these are in range. Go's \<^verbatim>\<open>int\<close> is taken to have 64 bits.
\<close>

theorem result_fields:
  "(GenerateHash newp genpw run seconds threads memory len key = (rs, None) \<or>
    GenerateHashWithSalt newp genpw run seconds threads memory len key salt = (rs, None) \<longrightarrow>
      Characters rs = int (length (Hash rs)) \<and> Key rs = key \<and>
      Duration rs = clock_stop run - clock_start run \<and>
      (clock_start run \<le> clock_stop run \<longrightarrow> 0 \<le> Duration rs) \<and>
      (keeps_arguments newp \<longrightarrow>
         Time rs = seconds mod 2 ^ 32 \<and> Threads rs = threads mod 2 ^ 8 \<and>
         Memory rs = memory mod 2 ^ 32 \<and> Length rs = len mod 2 ^ 32 \<and>
         (0 \<le> seconds \<and> seconds < 2 ^ 32 \<longrightarrow> Time rs = seconds) \<and>
         (0 \<le> threads \<and> threads < 2 ^ 8 \<longrightarrow> Threads rs = threads) \<and>
         (0 \<le> memory \<and> memory < 2 ^ 32 \<longrightarrow> Memory rs = memory) \<and>
         (0 \<le> len \<and> len < 2 ^ 32 \<longrightarrow> Length rs = len)))"
proof (intro impI, erule disjE)
  assume ok: "GenerateHash newp genpw run seconds threads memory len key = (rs, None)"
  show "Characters rs = int (length (Hash rs)) \<and> Key rs = key \<and>
      Duration rs = clock_stop run - clock_start run \<and>
      (clock_start run \<le> clock_stop run \<longrightarrow> 0 \<le> Duration rs) \<and>
      (keeps_arguments newp \<longrightarrow>
         Time rs = seconds mod 2 ^ 32 \<and> Threads rs = threads mod 2 ^ 8 \<and>
         Memory rs = memory mod 2 ^ 32 \<and> Length rs = len mod 2 ^ 32 \<and>
         (0 \<le> seconds \<and> seconds < 2 ^ 32 \<longrightarrow> Time rs = seconds) \<and>
         (0 \<le> threads \<and> threads < 2 ^ 8 \<longrightarrow> Threads rs = threads) \<and>
         (0 \<le> memory \<and> memory < 2 ^ 32 \<longrightarrow> Memory rs = memory) \<and>
         (0 \<le> len \<and> len < 2 ^ 32 \<longrightarrow> Length rs = len))"
    using GenerateHash_fields [OF ok] by simp
next
  assume ok: "GenerateHashWithSalt newp genpw run seconds threads memory len key salt =
      (rs, None)"
  show "Characters rs = int (length (Hash rs)) \<and> Key rs = key \<and>
      Duration rs = clock_stop run - clock_start run \<and>
      (clock_start run \<le> clock_stop run \<longrightarrow> 0 \<le> Duration rs) \<and>
      (keeps_arguments newp \<longrightarrow>
         Time rs = seconds mod 2 ^ 32 \<and> Threads rs = threads mod 2 ^ 8 \<and>
         Memory rs = memory mod 2 ^ 32 \<and> Length rs = len mod 2 ^ 32 \<and>
         (0 \<le> seconds \<and> seconds < 2 ^ 32 \<longrightarrow> Time rs = seconds) \<and>
         (0 \<le> threads \<and> threads < 2 ^ 8 \<longrightarrow> Threads rs = threads) \<and>
         (0 \<le> memory \<and> memory < 2 ^ 32 \<longrightarrow> Memory rs = memory) \<and>
         (0 \<le> len \<and> len < 2 ^ 32 \<longrightarrow> Length rs = len))"
    using GenerateHashWithSalt_fields [OF ok] by simp
qed

lemma keeps_arguments_sample: "keeps_arguments sample_NewParameters"
  by (auto simp add: keeps_arguments_def sample_NewParameters_def split: if_splits)

text \<open>
  The hypotheses of the theorem above hold for the call of the repository's test, with
  the stand-in package.
\<close>

theorem result_fields_witness:
  "GenerateHash sample_NewParameters sample_GenerateFromPassword sample_run
     1 1 65536 8 ''mypassword'' =
     (\<lparr>Time = 1, Threads = 1, Memory = 65536, Length = 8, Key = ''mypassword'',
       Hash = ''$argon2id$0123456789abcdef$mypassword'', Characters = 37, Duration = 50000,
       Salt = ''0123456789abcdef''\<rparr>, None) \<and>
   clock_start sample_run \<le> clock_stop sample_run \<and>
   keeps_arguments sample_NewParameters \<and>
   (0::int) \<le> 1 \<and> (1::int) < 2 ^ 32 \<and> (1::int) < 2 ^ 8 \<and>
   (0::int) \<le> 65536 \<and> (65536::int) < 2 ^ 32 \<and> (0::int) \<le> 8 \<and> (8::int) < 2 ^ 32 \<and>
   Characters \<lparr>Time = 1, Threads = 1, Memory = 65536, Length = 8, Key = ''mypassword'',
       Hash = ''$argon2id$0123456789abcdef$mypassword'', Characters = 37, Duration = 50000,
       Salt = ''0123456789abcdef''\<rparr> =
     int (length ''$argon2id$0123456789abcdef$mypassword'') \<and>
   (0::int) \<le> 50000"
  using result_fields [of sample_NewParameters sample_GenerateFromPassword sample_run
      1 1 65536 8 "''mypassword''"
      "\<lparr>Time = 1, Threads = 1, Memory = 65536, Length = 8, Key = ''mypassword'',
       Hash = ''$argon2id$0123456789abcdef$mypassword'', Characters = 37, Duration = 50000,
       Salt = ''0123456789abcdef''\<rparr>" "''mysalt''"] keeps_arguments_sample
  by (simp add: sample_eval)

text \<open>
  Claim C6 as the spec words it fails at 258 threads: the call succeeds and the
  result reports 2 threads.
\<close>

theorem result_fields_counterexample:
  "snd (GenerateHash sample_NewParameters sample_GenerateFromPassword sample_run
          1 258 65536 8 ''mypassword'') = None \<and>
   Threads (fst (GenerateHash sample_NewParameters sample_GenerateFromPassword sample_run
                   1 258 65536 8 ''mypassword'')) = 2"
  by (simp add: sample_eval)

section \<open>Determinism with a given salt\<close>

lemma salt_override_eq:
  assumes "p\<lparr>Parameters.Salt := []\<rparr> = p'\<lparr>Parameters.Salt := []\<rparr>"
  shows "p\<lparr>Parameters.Salt := salt\<rparr> = p'\<lparr>Parameters.Salt := salt\<rparr>"
proof -
  have "(p\<lparr>Parameters.Salt := []\<rparr>)\<lparr>Parameters.Salt := salt\<rparr> =
        (p'\<lparr>Parameters.Salt := []\<rparr>)\<lparr>Parameters.Salt := salt\<rparr>"
    using assms by simp
  then show ?thesis by simp
qed

lemma generateHash_two_runs:
  assumes "genpw (entropy run) password params = genpw (entropy run') password params"
  shows "snd (generateHash genpw run params password) =
         snd (generateHash genpw run' params password)"
    and "(fst (generateHash genpw run params password))\<lparr>Duration := 0\<rparr> =
         (fst (generateHash genpw run' params password))\<lparr>Duration := 0\<rparr>"
  using assms
  by (cases "genpw (entropy run') password params"; simp add: generateHash_def)+

text \<open>
  Claim C7. Two calls of \<open>GenerateHashWithSalt\<close> with the same arguments, in runs
  that differ in the randomness at hand and in the clock, return the same hash, the
  same error and the same result but for \<open>Duration\<close>: the salt of the caller
  replaces whatever salt the constructor proposed before the hashing is called.
  This holds for every package whose constructor lets its randomness reach the salt
  only and whose hashing draws no randomness once the parameters hold this salt.
\<close>

theorem GenerateHashWithSalt_deterministic:
  "salt_only_randomness newp \<and> deterministic_for_salt genpw salt \<longrightarrow>
     Hash (fst (GenerateHashWithSalt newp genpw run seconds threads memory len key salt)) =
     Hash (fst (GenerateHashWithSalt newp genpw run' seconds threads memory len key salt)) \<and>
     snd (GenerateHashWithSalt newp genpw run seconds threads memory len key salt) =
     snd (GenerateHashWithSalt newp genpw run' seconds threads memory len key salt) \<and>
     (fst (GenerateHashWithSalt newp genpw run seconds threads memory len key salt))
        \<lparr>Duration := 0\<rparr> =
     (fst (GenerateHashWithSalt newp genpw run' seconds threads memory len key salt))
        \<lparr>Duration := 0\<rparr>"
proof (intro impI, elim conjE)
  assume c: "salt_only_randomness newp" and d: "deterministic_for_salt genpw salt"
  obtain p e where pe: "newp (entropy run) (word_of_int seconds) (word_of_int memory)
      (word_of_int threads) (word_of_int len) = (p, e)" by (cases "newp (entropy run)
      (word_of_int seconds) (word_of_int memory) (word_of_int threads) (word_of_int len)")
  obtain p' e' where pe': "newp (entropy run') (word_of_int seconds) (word_of_int memory)
      (word_of_int threads) (word_of_int len) = (p', e')" by (cases "newp (entropy run')
      (word_of_int seconds) (word_of_int memory) (word_of_int threads) (word_of_int len)")
  from c have "snd (newp (entropy run) (word_of_int seconds) (word_of_int memory)
        (word_of_int threads) (word_of_int len)) =
      snd (newp (entropy run') (word_of_int seconds) (word_of_int memory)
        (word_of_int threads) (word_of_int len))"
    and "(fst (newp (entropy run) (word_of_int seconds) (word_of_int memory)
        (word_of_int threads) (word_of_int len)))\<lparr>Parameters.Salt := []\<rparr> =
      (fst (newp (entropy run') (word_of_int seconds) (word_of_int memory)
        (word_of_int threads) (word_of_int len)))\<lparr>Parameters.Salt := []\<rparr>"
    unfolding salt_only_randomness_def by blast+
  with pe pe' have e: "e' = e" and "p\<lparr>Parameters.Salt := []\<rparr> = p'\<lparr>Parameters.Salt := []\<rparr>"
    by simp_all
  then have ps: "p'\<lparr>Parameters.Salt := salt\<rparr> = p\<lparr>Parameters.Salt := salt\<rparr>"
    using salt_override_eq [of p p' salt] by simp
  from d have "genpw (entropy run) key (p\<lparr>Parameters.Salt := salt\<rparr>) =
      genpw (entropy run') key (p\<lparr>Parameters.Salt := salt\<rparr>)"
    unfolding deterministic_for_salt_def by simp
  note g = generateHash_two_runs [of genpw run key "p\<lparr>Parameters.Salt := salt\<rparr>" run', OF this]
  have 1: "GenerateHashWithSalt newp genpw run seconds threads memory len key salt =
      (if e \<noteq> None then (ResultSet_zero, e)
       else generateHash genpw run (p\<lparr>Parameters.Salt := salt\<rparr>) key)"
    using pe by (simp add: GenerateHashWithSalt_def Let_def)
  have 2: "GenerateHashWithSalt newp genpw run' seconds threads memory len key salt =
      (if e \<noteq> None then (ResultSet_zero, e)
       else generateHash genpw run' (p\<lparr>Parameters.Salt := salt\<rparr>) key)"
    using pe' e ps by (simp add: GenerateHashWithSalt_def Let_def)
  have s: "snd (GenerateHashWithSalt newp genpw run seconds threads memory len key salt) =
     snd (GenerateHashWithSalt newp genpw run' seconds threads memory len key salt)"
    unfolding 1 2 using g(1) by simp
  have f: "(fst (GenerateHashWithSalt newp genpw run seconds threads memory len key salt))
        \<lparr>Duration := 0\<rparr> =
     (fst (GenerateHashWithSalt newp genpw run' seconds threads memory len key salt))
        \<lparr>Duration := 0\<rparr>"
    unfolding 1 2 using g(2) by simp
  from f have "Hash ((fst (GenerateHashWithSalt newp genpw run seconds threads memory len key
        salt))\<lparr>Duration := 0\<rparr>) =
      Hash ((fst (GenerateHashWithSalt newp genpw run' seconds threads memory len key
        salt))\<lparr>Duration := 0\<rparr>)" by (rule arg_cong)
  then have h: "Hash (fst (GenerateHashWithSalt newp genpw run seconds threads memory len key
        salt)) =
      Hash (fst (GenerateHashWithSalt newp genpw run' seconds threads memory len key salt))"
    by simp
  from h s f show "Hash (fst (GenerateHashWithSalt newp genpw run seconds threads memory len key salt)) =
     Hash (fst (GenerateHashWithSalt newp genpw run' seconds threads memory len key salt)) \<and>
     snd (GenerateHashWithSalt newp genpw run seconds threads memory len key salt) =
     snd (GenerateHashWithSalt newp genpw run' seconds threads memory len key salt) \<and>
     (fst (GenerateHashWithSalt newp genpw run seconds threads memory len key salt))
        \<lparr>Duration := 0\<rparr> =
     (fst (GenerateHashWithSalt newp genpw run' seconds threads memory len key salt))
        \<lparr>Duration := 0\<rparr>" by (intro conjI)
qed

lemma salt_only_randomness_sample: "salt_only_randomness sample_NewParameters"
  by (simp add: salt_only_randomness_def sample_NewParameters_def)

lemma deterministic_for_salt_sample: "deterministic_for_salt sample_GenerateFromPassword salt"
  by (simp add: deterministic_for_salt_def sample_GenerateFromPassword_def)

text \<open>
  The stand-in package meets both hypotheses; two runs with other randomness and
  other clock readings give the same hash and different durations.
\<close>

theorem GenerateHashWithSalt_deterministic_witness:
  "salt_only_randomness sample_NewParameters \<and>
   deterministic_for_salt sample_GenerateFromPassword ''mysalt'' \<and>
   Hash (fst (GenerateHashWithSalt sample_NewParameters sample_GenerateFromPassword sample_run
                1 1 65536 8 ''mypassword'' ''mysalt'')) =
   Hash (fst (GenerateHashWithSalt sample_NewParameters sample_GenerateFromPassword other_run
                1 1 65536 8 ''mypassword'' ''mysalt'')) \<and>
   Duration (fst (GenerateHashWithSalt sample_NewParameters sample_GenerateFromPassword
                    sample_run 1 1 65536 8 ''mypassword'' ''mysalt'')) \<noteq>
   Duration (fst (GenerateHashWithSalt sample_NewParameters sample_GenerateFromPassword
                    other_run 1 1 65536 8 ''mypassword'' ''mysalt''))"
proof -
  have d: "Duration (fst (GenerateHashWithSalt sample_NewParameters
        sample_GenerateFromPassword sample_run 1 1 65536 8 ''mypassword'' ''mysalt'')) \<noteq>
      Duration (fst (GenerateHashWithSalt sample_NewParameters sample_GenerateFromPassword
        other_run 1 1 65536 8 ''mypassword'' ''mysalt''))"
    by (simp add: sample_eval other_run_def)
  from GenerateHashWithSalt_deterministic [of sample_NewParameters sample_GenerateFromPassword
      "''mysalt''" sample_run 1 1 65536 8 "''mypassword''" other_run]
    salt_only_randomness_sample deterministic_for_salt_sample [of "''mysalt''"] d
  show ?thesis by blast
qed


end
